theory Spec2Isabelle
  imports Main "HOL-Library.Word" "HOL-Library.Multiset"
begin

section \<open>cli.h: the data model\<close>

text \<open>
  A shallow embedding of \<^verbatim>\<open>cli.h\<close> in its default configuration
  (\<^verbatim>\<open>CLI_DEFAULT_ARR_CAP = 5\<close>, \<^verbatim>\<open>CLI_ERROR_SYM\<close> the UTF-8 cross,
  \<^verbatim>\<open>assert\<close> enabled, \<^verbatim>\<open>CLI_MALLOC = malloc\<close>).

  A C string is the list of its bytes before the terminating NUL. A \<^verbatim>\<open>const char*\<close>
  field is \<open>None\<close> for the null pointer and \<open>Some s\<close> when it points to the string
  \<open>s\<close>. The pair \<^verbatim>\<open>(argc, argv)\<close> is the list of the \<^verbatim>\<open>argc\<close> strings
  that \<^verbatim>\<open>argv\<close> points to: decrementing \<^verbatim>\<open>argc\<close> and advancing
  \<^verbatim>\<open>argv\<close> takes the tail of the list.
\<close>

type_synonym cstring = string

text \<open>The five global style strings, \<^verbatim>\<open>CLI_RESET\<close> to \<^verbatim>\<open>CLI_FORE_BRBLUE\<close>.\<close>

record style_state =
  CLI_RESET :: cstring
  CLI_BOLD :: cstring
  CLI_DIM :: cstring
  CLI_FORE_RED :: cstring
  CLI_FORE_BRBLUE :: cstring

text \<open>
  \<^verbatim>\<open>struct CliStringArray\<close>: two \<^verbatim>\<open>unsigned short\<close> counters and the pointer
  \<^verbatim>\<open>data\<close>. The pointer is \<open>None\<close> when null, and otherwise carries the block it
  points to: one entry per slot, \<open>None\<close> for a slot never written.
\<close>

record CliStringArray =
  length_sa :: "16 word"
  capacity :: "16 word"
  data :: "cstring option list option"

record Cli =
  execfile :: "cstring option"
  command :: "cstring option"
  args :: CliStringArray
  cmd_options :: CliStringArray
  program_options :: CliStringArray

datatype CliError = CliErrorOk | CliErrorUser | CliErrorFatal

text \<open>
  The ways a call can end without returning: the \<^verbatim>\<open>CLI_ASSERT(*argc)\<close> of
  \<^verbatim>\<open>cli_pop_argv\<close>, the \<^verbatim>\<open>assert(0 && "TODO: ...")\<close> of
  \<^verbatim>\<open>cli_da_append\<close>, and an access outside an allocated block (undefined in C).
\<close>

datatype fault = AssertArgc | AssertCapacity | InvalidAccess

text \<open>
  What the library touches outside its arguments: the style globals, the bytes written to
  \<^verbatim>\<open>stderr\<close>, and the allocator. \<open>mallocs\<close> lists whether each coming call of
  \<^verbatim>\<open>CLI_MALLOC\<close> succeeds (none left: out of memory); \<open>live\<close> counts the blocks
  allocated and not freed.
\<close>

record world =
  styles :: style_state
  stderr :: string
  mallocs :: "bool list"
  live :: nat

section \<open>Configuration macros\<close>

definition CLI_DEFAULT_ARR_CAP :: nat where
  "CLI_DEFAULT_ARR_CAP = 5"

definition CLI_ERROR_SYM :: string where
  "CLI_ERROR_SYM = [CHR 0xE2, CHR 0x9C, CHR 0x96]"

text \<open>
  \<^verbatim>\<open>CLI_MALLOC(n * sizeof(item_t))\<close>: a fresh block of \<open>n\<close> unwritten slots, or
  the null pointer.
\<close>

definition CLI_MALLOC :: "nat \<Rightarrow> world \<Rightarrow> cstring option list option \<times> world" where
  "CLI_MALLOC n w =
     (case mallocs w of
        [] \<Rightarrow> (None, w)
      | ok # rest \<Rightarrow>
          if ok then (Some (replicate n None), w\<lparr>mallocs := rest, live := live w + 1\<rparr>)
          else (None, w\<lparr>mallocs := rest\<rparr>))"

text \<open>\<^verbatim>\<open>CLI_FREE(p)\<close>: freeing the null pointer does nothing.\<close>

definition CLI_FREE :: "cstring option list option \<Rightarrow> world \<Rightarrow> world" where
  "CLI_FREE p w = (case p of None \<Rightarrow> w | Some _ \<Rightarrow> w\<lparr>live := live w - 1\<rparr>)"

section \<open>The growable string array\<close>

text \<open>\<^verbatim>\<open>cli_da_init(array, item_t, da_malloc)\<close>.\<close>

definition cli_da_init :: "CliStringArray \<Rightarrow> world \<Rightarrow> CliStringArray \<times> world" where
  "cli_da_init array w =
     (let (p, w') = CLI_MALLOC CLI_DEFAULT_ARR_CAP w
      in (array\<lparr>capacity := of_nat CLI_DEFAULT_ARR_CAP, length_sa := 0, data := p\<rparr>, w'))"

text \<open>
  \<^verbatim>\<open>cli_da_append(array, item)\<close>: the pre-increment of the 16-bit \<^verbatim>\<open>length\<close>
  wraps around, the assertion compares the new length with the capacity, and the store goes
  to index \<^verbatim>\<open>length - 1\<close>, computed in \<^verbatim>\<open>int\<close>.
\<close>

definition cli_da_append :: "CliStringArray \<Rightarrow> cstring \<Rightarrow> fault + CliStringArray" where
  "cli_da_append array item =
     (let l = length_sa array + 1 in
      if l > capacity array then Inl AssertCapacity
      else
        (let i = uint l - 1 in
         case data array of
           None \<Rightarrow> Inl InvalidAccess
         | Some slots \<Rightarrow>
             if 0 \<le> i \<and> i < int (length slots)
             then Inr (array\<lparr>length_sa := l, data := Some (slots[nat i := Some item])\<rparr>)
             else Inl InvalidAccess))"

text \<open>Reading \<^verbatim>\<open>array.data[i]\<close> as a string.\<close>

definition da_read :: "CliStringArray \<Rightarrow> int \<Rightarrow> fault + cstring" where
  "da_read array i =
     (case data array of
        None \<Rightarrow> Inl InvalidAccess
      | Some slots \<Rightarrow>
          if 0 \<le> i \<and> i < int (length slots)
          then (case slots ! nat i of None \<Rightarrow> Inl InvalidAccess | Some s \<Rightarrow> Inr s)
          else Inl InvalidAccess)"

text \<open>The populated slots of an array, in index order: what a caller reads back.\<close>

definition contents :: "CliStringArray \<Rightarrow> cstring list" where
  "contents array =
     (case data array of
        None \<Rightarrow> []
      | Some slots \<Rightarrow> List.map_filter id (take (unat (length_sa array)) slots))"

section \<open>Diagnostics\<close>

text \<open>
  \<^verbatim>\<open>cli_print_error(title, msg)\<close> and \<^verbatim>\<open>cli_printf_error(title, msg, ...)\<close>
  print, in this order, \<^verbatim>\<open>CLI_FORE_RED\<close>, the error symbol, \<^verbatim>\<open>CLI_RESET\<close>,
  \<^verbatim>\<open>CLI_BOLD\<close>, a space, the title, \<^verbatim>\<open>CLI_RESET\<close>, a colon and a space, the
  message and a newline. The message is passed here with its \<^verbatim>\<open>%s\<close> already replaced.
\<close>

definition cli_print_error :: "string \<Rightarrow> string \<Rightarrow> world \<Rightarrow> world" where
  "cli_print_error title msg w =
     w\<lparr>stderr := stderr w @ CLI_FORE_RED (styles w) @ CLI_ERROR_SYM @ CLI_RESET (styles w)
          @ CLI_BOLD (styles w) @ '' '' @ title @ CLI_RESET (styles w) @ '': '' @ msg
          @ [CHR 0x0A]\<rparr>"

section \<open>Styles\<close>

text \<open>
  \<^verbatim>\<open>cli_toggle_colors\<close>. The flag says whether \<^verbatim>\<open>CLI_NO_STYLES\<close> is defined,
  in which case the body is empty. \<^verbatim>\<open>CLI_RESET[0]\<close> is non-zero when the string is
  not empty.
\<close>

definition cli_toggle_colors :: "bool \<Rightarrow> style_state \<Rightarrow> style_state" where
  "cli_toggle_colors no_styles s =
     (if no_styles then s
      else if CLI_RESET s \<noteq> [] then
        s\<lparr>CLI_RESET := '''', CLI_BOLD := '''', CLI_DIM := '''', CLI_FORE_RED := '''',
          CLI_FORE_BRBLUE := ''''\<rparr>
      else
        s\<lparr>CLI_RESET := CHR 0x1B # ''[0m'', CLI_BOLD := CHR 0x1B # ''[1m'',
          CLI_DIM := CHR 0x1B # ''[2m'', CLI_FORE_RED := CHR 0x1B # ''[31m'',
          CLI_FORE_BRBLUE := CHR 0x1B # ''[94m''\<rparr>)"

text \<open>The initializers of the five globals.\<close>

definition initial_styles :: style_state where
  "initial_styles =
     \<lparr>CLI_RESET = '''', CLI_BOLD = '''', CLI_DIM = '''', CLI_FORE_RED = '''',
      CLI_FORE_BRBLUE = ''''\<rparr>"

section \<open>The argument classifier\<close>

text \<open>\<^verbatim>\<open>arg[i]\<close> for \<open>i\<close> up to the terminating NUL.\<close>

definition c_at :: "cstring \<Rightarrow> nat \<Rightarrow> char" where
  "c_at s i = (if i < length s then s ! i else CHR 0x00)"

definition cli_pop_argv :: "cstring list \<Rightarrow> fault + (cstring \<times> cstring list)" where
  "cli_pop_argv argv = (case argv of [] \<Rightarrow> Inl AssertArgc | a # rest \<Rightarrow> Inr (a, rest))"

text \<open>
  The message of the user error, \<^verbatim>\<open>"Double dash ('%s') cannot be specified after the
  positional argument ('%s')."\<close>, with its two arguments in place.
\<close>

definition user_error_message :: "cstring \<Rightarrow> cstring \<Rightarrow> string" where
  "user_error_message arg last_arg =
     ''Double dash ('' @ [CHR 0x27] @ arg @ [CHR 0x27]
       @ '') cannot be specified after the positional argument (''
       @ [CHR 0x27] @ last_arg @ [CHR 0x27] @ '').''"

text \<open>
  The \<^verbatim>\<open>while (argc)\<close> loop of \<^verbatim>\<open>cli_parse\<close>. The loop is entered with
  \<^verbatim>\<open>argc\<close> non-zero, so the \<^verbatim>\<open>cli_pop_argv\<close> at its head returns the first
  remaining token.
\<close>

fun parse_loop ::
  "bool \<Rightarrow> cstring list \<Rightarrow> Cli \<Rightarrow> world \<Rightarrow> fault + (CliError \<times> Cli \<times> world)" where
  "parse_loop is_cmd_option [] cli w = Inr (CliErrorOk, cli, w)"
| "parse_loop is_cmd_option (arg # argv) cli w =
     (if c_at arg 0 = CHR ''-'' then
        if c_at arg 1 = CHR ''-'' \<and> c_at arg 2 = CHR 0x00 then
          if length_sa (args cli) > 0 then
            (case da_read (args cli) (uint (length_sa (args cli)) - 1) of
               Inl f \<Rightarrow> Inl f
             | Inr last_arg \<Rightarrow>
                 Inr (CliErrorUser, cli,
                      cli_print_error ''CLI error'' (user_error_message arg last_arg) w))
          else parse_loop True argv cli w
        else if is_cmd_option then
          (case cli_da_append (cmd_options cli) arg of
             Inl f \<Rightarrow> Inl f
           | Inr a \<Rightarrow> parse_loop is_cmd_option argv (cli\<lparr>cmd_options := a\<rparr>) w)
        else
          (case cli_da_append (program_options cli) arg of
             Inl f \<Rightarrow> Inl f
           | Inr a \<Rightarrow> parse_loop is_cmd_option argv (cli\<lparr>program_options := a\<rparr>) w)
      else
        (case cli_da_append (args cli) arg of
           Inl f \<Rightarrow> Inl f
         | Inr a \<Rightarrow> parse_loop is_cmd_option argv (cli\<lparr>args := a\<rparr>) w))"

text \<open>\<^verbatim>\<open>*cli = (struct Cli) { 0 }\<close>.\<close>

definition zero_array :: CliStringArray where
  "zero_array = \<lparr>length_sa = 0, capacity = 0, data = None\<rparr>"

definition zero_Cli :: Cli where
  "zero_Cli =
     \<lparr>execfile = None, command = None, args = zero_array, cmd_options = zero_array,
      program_options = zero_array\<rparr>"

definition cli_parse ::
  "cstring list \<Rightarrow> Cli \<Rightarrow> world \<Rightarrow> fault + (CliError \<times> Cli \<times> world)" where
  "cli_parse argv0 cli0 w0 =
     (case cli_pop_argv argv0 of
        Inl f \<Rightarrow> Inl f
      | Inr (exec, argv) \<Rightarrow>
          if argv \<noteq> [] then
            (let cli1 = cli0\<lparr>execfile := Some exec\<rparr>;
                 (a, w1) = cli_da_init (args cli1) w0;
                 cli2 = cli1\<lparr>args := a\<rparr>
             in if data (args cli2) = None then
                  Inr (CliErrorFatal, cli2,
                       cli_print_error ''Memory error''
                         ''Unable to allocate memory for CLI arguments.'' w1)
                else
                  (let (c, w2) = cli_da_init (cmd_options cli2) w1;
                       cli3 = cli2\<lparr>cmd_options := c\<rparr>
                   in if data (cmd_options cli3) = None then
                        Inr (CliErrorFatal, cli3,
                             cli_print_error ''Memory error''
                               ''Unable to allocate memory for command options.'' w2)
                      else
                        (let (p, w3) = cli_da_init (program_options cli3) w2;
                             cli4 = cli3\<lparr>program_options := p\<rparr>
                         in if data (program_options cli4) = None then
                              Inr (CliErrorFatal, cli4,
                                   cli_print_error ''Memory error''
                                     ''Unable to allocate memory for program options.'' w3)
                            else parse_loop False argv cli4 w3)))
          else Inr (CliErrorOk, zero_Cli\<lparr>execfile := Some exec\<rparr>, w0))"

text \<open>\<^verbatim>\<open>cli_free\<close>.\<close>

definition cli_free :: "Cli \<Rightarrow> world \<Rightarrow> world" where
  "cli_free cli w =
     CLI_FREE (data (program_options cli)) (CLI_FREE (data (cmd_options cli))
       (CLI_FREE (data (args cli)) w))"

section \<open>Vocabulary of the specification\<close>

text \<open>
  A token of \<^verbatim>\<open>argv\<close> is a C string: it holds no NUL byte.
\<close>

definition c_string :: "cstring \<Rightarrow> bool" where
  "c_string s = (CHR 0x00 \<notin> set s)"

text \<open>
  The three classes of tokens, in the words of the specification: a positional argument does
  not begin with \<^verbatim>\<open>-\<close> (the empty token is positional: its first byte is the
  terminator), the separator is the token \<^verbatim>\<open>--\<close>, and every other token beginning
  with \<^verbatim>\<open>-\<close> is an option.
\<close>

definition positional :: "cstring \<Rightarrow> bool" where
  "positional t = (case t of [] \<Rightarrow> True | c # _ \<Rightarrow> c \<noteq> CHR ''-'')"

definition option_token :: "cstring \<Rightarrow> bool" where
  "option_token t = (\<not> positional t \<and> t \<noteq> ''--'')"

text \<open>
  An array in use: its block has as many slots as \<open>capacity\<close> says, the length does not
  exceed the capacity, and the first \<open>length\<close> slots have been written.
\<close>

definition wf_array :: "CliStringArray \<Rightarrow> bool" where
  "wf_array a =
     (case data a of
        None \<Rightarrow> False
      | Some slots \<Rightarrow>
          length slots = unat (capacity a) \<and> unat (capacity a) < 65535
          \<and> length_sa a \<le> capacity a
          \<and> list_all (\<lambda>s. s \<noteq> None) (take (unat (length_sa a)) slots))"

definition wf_Cli :: "Cli \<Rightarrow> bool" where
  "wf_Cli cli = (wf_array (args cli) \<and> wf_array (cmd_options cli) \<and> wf_array (program_options cli))"

text \<open>The invariant \<^verbatim>\<open>length <= capacity\<close> on the three arrays of a \<open>Cli\<close>.\<close>

definition inv_Cli :: "Cli \<Rightarrow> bool" where
  "inv_Cli cli =
     (length_sa (args cli) \<le> capacity (args cli)
      \<and> length_sa (cmd_options cli) \<le> capacity (cmd_options cli)
      \<and> length_sa (program_options cli) \<le> capacity (program_options cli))"

text \<open>
  What \<open>cli_da_init\<close> leaves in an array when the allocation succeeds and when it fails, and
  the \<open>Cli\<close> with which \<open>cli_parse\<close> enters its loop.
\<close>

definition fresh_array :: CliStringArray where
  "fresh_array = \<lparr>length_sa = 0, capacity = 5, data = Some (replicate 5 None)\<rparr>"

definition null_array :: CliStringArray where
  "null_array = \<lparr>length_sa = 0, capacity = 5, data = None\<rparr>"

definition init_Cli :: "cstring \<Rightarrow> Cli \<Rightarrow> Cli" where
  "init_Cli exec cli =
     \<lparr>execfile = Some exec, command = command cli, args = fresh_array,
      cmd_options = fresh_array, program_options = fresh_array\<rparr>"

text \<open>The style globals: all empty, all non-empty, and the five escape sequences.\<close>

definition all_inactive :: "style_state \<Rightarrow> bool" where
  "all_inactive s =
     (CLI_RESET s = [] \<and> CLI_BOLD s = [] \<and> CLI_DIM s = [] \<and> CLI_FORE_RED s = []
      \<and> CLI_FORE_BRBLUE s = [])"

definition all_active :: "style_state \<Rightarrow> bool" where
  "all_active s =
     (CLI_RESET s \<noteq> [] \<and> CLI_BOLD s \<noteq> [] \<and> CLI_DIM s \<noteq> [] \<and> CLI_FORE_RED s \<noteq> []
      \<and> CLI_FORE_BRBLUE s \<noteq> [])"

definition ansi_styles :: style_state where
  "ansi_styles =
     \<lparr>CLI_RESET = CHR 0x1B # ''[0m'', CLI_BOLD = CHR 0x1B # ''[1m'',
      CLI_DIM = CHR 0x1B # ''[2m'', CLI_FORE_RED = CHR 0x1B # ''[31m'',
      CLI_FORE_BRBLUE = CHR 0x1B # ''[94m''\<rparr>"

text \<open>
  A state of the globals that a caller has written to: all five are non-empty, but they are
  not the escape sequences.
\<close>

definition custom_styles :: style_state where
  "custom_styles =
     \<lparr>CLI_RESET = ''*'', CLI_BOLD = ''*'', CLI_DIM = ''*'', CLI_FORE_RED = ''*'',
      CLI_FORE_BRBLUE = ''*''\<rparr>"

text \<open>
  A run used as an example: no style, nothing printed yet, three allocations that succeed,
  and the result of parsing \<^verbatim>\<open>exec -a -- -b\<close> there.
\<close>

definition example_world :: world where
  "example_world = \<lparr>styles = initial_styles, stderr = [], mallocs = [True, True, True], live = 0\<rparr>"

definition example_Cli :: Cli where
  "example_Cli =
     \<lparr>execfile = Some ''exec'', command = None,
      args = \<lparr>length_sa = 0, capacity = 5, data = Some [None, None, None, None, None]\<rparr>,
      cmd_options = \<lparr>length_sa = 1, capacity = 5,
        data = Some [Some ''-b'', None, None, None, None]\<rparr>,
      program_options = \<lparr>length_sa = 1, capacity = 5,
        data = Some [Some ''-a'', None, None, None, None]\<rparr>\<rparr>"

text \<open>
  Further results of example runs: \<^verbatim>\<open>exec -v -- -c file1 -d file2\<close>,
  \<^verbatim>\<open>exec pos1\<close> and \<^verbatim>\<open>exec -a -- -b -c x\<close>.
\<close>

definition example_Cli_order :: Cli where
  "example_Cli_order =
     \<lparr>execfile = Some ''exec'', command = None,
      args = \<lparr>length_sa = 2, capacity = 5,
        data = Some [Some ''file1'', Some ''file2'', None, None, None]\<rparr>,
      cmd_options = \<lparr>length_sa = 2, capacity = 5,
        data = Some [Some ''-c'', Some ''-d'', None, None, None]\<rparr>,
      program_options = \<lparr>length_sa = 1, capacity = 5,
        data = Some [Some ''-v'', None, None, None, None]\<rparr>\<rparr>"

definition example_Cli_pos :: Cli where
  "example_Cli_pos =
     \<lparr>execfile = Some ''exec'', command = None,
      args = \<lparr>length_sa = 1, capacity = 5,
        data = Some [Some ''pos1'', None, None, None, None]\<rparr>,
      cmd_options = \<lparr>length_sa = 0, capacity = 5,
        data = Some [None, None, None, None, None]\<rparr>,
      program_options = \<lparr>length_sa = 0, capacity = 5,
        data = Some [None, None, None, None, None]\<rparr>\<rparr>"

definition example_Cli_scope :: Cli where
  "example_Cli_scope =
     \<lparr>execfile = Some ''exec'', command = None,
      args = \<lparr>length_sa = 1, capacity = 5,
        data = Some [Some ''x'', None, None, None, None]\<rparr>,
      cmd_options = \<lparr>length_sa = 2, capacity = 5,
        data = Some [Some ''-b'', Some ''-c'', None, None, None]\<rparr>,
      program_options = \<lparr>length_sa = 1, capacity = 5,
        data = Some [Some ''-a'', None, None, None, None]\<rparr>\<rparr>"

text \<open>
  The three messages of \<open>cli_parse\<close> for a failed allocation, in the order in which the
  arrays are allocated.
\<close>

definition memory_error_messages :: "string list" where
  "memory_error_messages =
     [''Unable to allocate memory for CLI arguments.'',
      ''Unable to allocate memory for command options.'',
      ''Unable to allocate memory for program options.'']"

text \<open>
  Appending a list of items one after the other, stopping at the first failure, and the bound
  under which \<open>cli_parse\<close> is used: no class of tokens has more than
  \<^verbatim>\<open>CLI_DEFAULT_ARR_CAP\<close> members.
\<close>

fun append_all :: "CliStringArray \<Rightarrow> cstring list \<Rightarrow> fault + CliStringArray" where
  "append_all a [] = Inr a"
| "append_all a (x # xs) =
     (case cli_da_append a x of Inl f \<Rightarrow> Inl f | Inr a' \<Rightarrow> append_all a' xs)"

definition within_capacity :: "cstring list \<Rightarrow> bool" where
  "within_capacity ts =
     (length (filter positional ts) \<le> CLI_DEFAULT_ARR_CAP
      \<and> length (filter option_token (takeWhile (\<lambda>t. t \<noteq> ''--'') ts)) \<le> CLI_DEFAULT_ARR_CAP
      \<and> length (filter option_token (dropWhile (\<lambda>t. t \<noteq> ''--'') ts)) \<le> CLI_DEFAULT_ARR_CAP)"

text \<open>The result of parsing \<^verbatim>\<open>exec a b c d e\<close>: \<open>args\<close> is full.\<close>

definition example_Cli_full :: Cli where
  "example_Cli_full =
     \<lparr>execfile = Some ''exec'', command = None,
      args = \<lparr>length_sa = 5, capacity = 5,
        data = Some [Some ''a'', Some ''b'', Some ''c'', Some ''d'', Some ''e'']\<rparr>,
      cmd_options = \<lparr>length_sa = 0, capacity = 5,
        data = Some [None, None, None, None, None]\<rparr>,
      program_options = \<lparr>length_sa = 0, capacity = 5,
        data = Some [None, None, None, None, None]\<rparr>\<rparr>"

section \<open>Lemmas on the array\<close>

lemma word16_succ:
  fixes l c :: "16 word"
  assumes "l < c"
  shows "unat (l + 1) = Suc (unat l)" and "l + 1 \<le> c" and "uint (l + 1) - 1 = uint l"
proof -
  have b: "unat c < 2 ^ 16" using unsigned_less [of c] by simp
  from assms have lt: "unat l < unat c" by (simp add: word_less_nat_alt)
  have "unat l + unat (1 :: 16 word) < 2 ^ LENGTH(16)" using lt b by simp
  then have "unat (l + 1) = unat l + unat (1 :: 16 word)" by (simp only: unat_add_lem)
  then show u: "unat (l + 1) = Suc (unat l)" by simp
  show "l + 1 \<le> c"
    using assms by (rule inc_le)
  have "uint (l + 1) = int (unat (l + 1))" by (rule uint_nat)
  also have "\<dots> = 1 + int (unat l)" by (simp only: u of_nat_Suc)
  also have "\<dots> = 1 + uint l" by (simp only: uint_nat)
  finally show "uint (l + 1) - 1 = uint l" by simp
qed

lemma uint_lt_unat: "unat (l :: 16 word) < n \<Longrightarrow> uint l < int n"
  by (simp only: uint_nat of_nat_less_iff)

lemma map_filter_take_Suc:
  assumes "n < length xs"
  shows "List.map_filter id (take (Suc n) (xs[n := Some x])) = List.map_filter id (take n xs) @ [x]"
  using assms by (simp add: take_Suc_conv_app_nth map_filter_def)

lemma append_ok:
  assumes "wf_array a" "length_sa a < capacity a"
  shows "\<exists>a'. cli_da_append a x = Inr a' \<and> wf_array a' \<and> contents a' = contents a @ [x]
            \<and> capacity a' = capacity a \<and> unat (length_sa a') = Suc (unat (length_sa a))"
proof -
  from assms(1) obtain slots where d: "data a = Some slots"
    and n: "length slots = unat (capacity a)"
    and m: "unat (capacity a) < 65535"
    and i: "list_all (\<lambda>s. s \<noteq> None) (take (unat (length_sa a)) slots)"
    by (auto simp: wf_array_def split: option.splits)
  note s = word16_succ [OF assms(2)]
  from assms(2) have lt: "unat (length_sa a) < length slots"
    by (simp add: n word_less_nat_alt)
  have lt': "uint (length_sa a) < int (length slots)"
    using lt by (rule uint_lt_unat)
  have "\<not> length_sa a + 1 > capacity a" using s(2) by simp
  then have e: "cli_da_append a x
      = Inr (a\<lparr>length_sa := length_sa a + 1, data := Some (slots[unat (length_sa a) := Some x])\<rparr>)"
    using lt' by (simp add: cli_da_append_def Let_def d s(3))
  have "list_all (\<lambda>s. s \<noteq> None) (take (Suc (unat (length_sa a))) (slots[unat (length_sa a) := Some x]))"
    using i lt by (simp add: take_Suc_conv_app_nth)
  then have w: "wf_array (a\<lparr>length_sa := length_sa a + 1, data := Some (slots[unat (length_sa a) := Some x])\<rparr>)"
    using n m s(1,2) by (simp add: wf_array_def)
  have c: "contents (a\<lparr>length_sa := length_sa a + 1, data := Some (slots[unat (length_sa a) := Some x])\<rparr>)
      = contents a @ [x]"
    using lt by (simp add: contents_def d s(1) map_filter_take_Suc)
  show ?thesis using e w c s(1) by simp
qed

lemma append_full:
  assumes "length_sa a = capacity a" "unat (capacity a) < 65535"
  shows "cli_da_append a x = Inl AssertCapacity"
proof -
  have "unat (capacity a) + unat (1 :: 16 word) < 2 ^ LENGTH(16)" using assms(2) by simp
  then have "unat (capacity a + 1) = unat (capacity a) + unat (1 :: 16 word)"
    by (simp only: unat_add_lem)
  then have "capacity a < capacity a + 1"
    by (simp add: word_less_nat_alt)
  then show ?thesis by (simp add: cli_da_append_def Let_def assms(1))
qed

lemma append_cases:
  assumes "wf_array a"
  shows "(length_sa a = capacity a \<and> cli_da_append a x = Inl AssertCapacity)
       \<or> (length_sa a < capacity a \<and> (\<exists>a'. cli_da_append a x = Inr a' \<and> wf_array a'
            \<and> contents a' = contents a @ [x] \<and> capacity a' = capacity a
            \<and> unat (length_sa a') = Suc (unat (length_sa a))))"
proof (cases "length_sa a < capacity a")
  case True
  with append_ok [OF assms True, of x] show ?thesis by simp
next
  case False
  from assms have "length_sa a \<le> capacity a" and m: "unat (capacity a) < 65535"
    by (auto simp: wf_array_def split: option.splits)
  with False have e: "length_sa a = capacity a" by simp
  with append_full [OF e m, of x] show ?thesis by simp
qed

lemma wf_contents_length: "wf_array a \<Longrightarrow> length (contents a) = unat (length_sa a)"
proof -
  have *: "list_all (\<lambda>s. s \<noteq> None) xs \<Longrightarrow> length (List.map_filter id xs) = length xs" for xs :: "cstring option list"
    by (induction xs) (auto simp: map_filter_def)
  assume "wf_array a"
  then obtain slots where d: "data a = Some slots"
    and n: "length slots = unat (capacity a)" and le: "length_sa a \<le> capacity a"
    and i: "list_all (\<lambda>s. s \<noteq> None) (take (unat (length_sa a)) slots)"
    by (auto simp: wf_array_def split: option.splits)
  from le have "unat (length_sa a) \<le> length slots" by (simp add: n word_le_nat_alt)
  with *[OF i] show ?thesis by (simp add: contents_def d)
qed

lemma append_le: "cli_da_append a x = Inr a' \<Longrightarrow> length_sa a' \<le> capacity a'"
  by (auto simp: cli_da_append_def Let_def split: if_splits option.splits)

lemma c_at_0: "(c_at t 0 = CHR ''-'') = (\<not> positional t)"
  by (cases t) (simp_all add: c_at_def positional_def)

lemma c_at_sep:
  assumes "c_string t"
  shows "(c_at t 0 = CHR ''-'' \<and> c_at t (Suc 0) = CHR ''-'' \<and> c_at t 2 = CHR 0x00) = (t = ''--'')"
proof (cases t)
  case Nil then show ?thesis by (simp add: c_at_def)
next
  case (Cons a t1)
  show ?thesis
  proof (cases t1)
    case Nil with Cons show ?thesis by (simp add: c_at_def)
  next
    case (Cons b t2)
    with \<open>t = a # t1\<close> assms show ?thesis
      by (cases t2) (auto simp: c_at_def c_string_def)
  qed
qed

lemma map_filter_all_Some:
  "list_all (\<lambda>s. s \<noteq> None) xs \<Longrightarrow> List.map_filter id xs = map the xs"
  by (induction xs) (auto simp: map_filter_def)

lemma read_last:
  assumes "wf_array a" "0 < length_sa a"
  shows "da_read a (uint (length_sa a) - 1) = Inr (last (contents a))"
proof -
  from assms(1) obtain slots where d: "data a = Some slots"
    and n: "length slots = unat (capacity a)" and le: "length_sa a \<le> capacity a"
    and i: "list_all (\<lambda>s. s \<noteq> None) (take (unat (length_sa a)) slots)"
    by (auto simp: wf_array_def split: option.splits)
  define k where "k = unat (length_sa a)"
  from assms(2) have k0: "0 < k" by (simp add: k_def word_less_nat_alt)
  from le have kn: "k \<le> length slots" by (simp add: n k_def word_le_nat_alt)
  have u: "uint (length_sa a) = int k" by (simp only: k_def uint_nat)
  have ix: "nat (int k - 1) = k - 1" by simp
  from i k0 kn have s: "slots ! (k - 1) \<noteq> None"
    by (auto simp: list_all_length k_def [symmetric] dest!: spec [of _ "k - 1"])
  have t: "take k slots \<noteq> []" using k0 kn by auto
  have "contents a = map the (take k slots)"
    using i by (simp add: contents_def d map_filter_all_Some k_def)
  then have "last (contents a) = the (slots ! (k - 1))"
    using t k0 kn by (simp add: last_map last_conv_nth min_absorb2)
  with s show ?thesis
    using k0 kn by (auto simp: da_read_def d u ix)
qed

lemma wf_fresh: "wf_array fresh_array"
  by (simp add: wf_array_def fresh_array_def)

lemma wf_init: "wf_Cli (init_Cli exec cli)"
  by (simp add: wf_Cli_def init_Cli_def wf_fresh)

lemma contents_fresh: "contents fresh_array = []"
  by (simp add: contents_def fresh_array_def map_filter_def)

section \<open>Lemmas on the loop\<close>

text \<open>At the head of the loop \<^verbatim>\<open>argc\<close> is not zero: the pop returns, with the first token.\<close>

lemma pop_nonempty: "cli_pop_argv (arg # argv) = Inr (arg, argv)"
  by (simp add: cli_pop_argv_def)

lemma token_cases:
  obtains (pos) "positional t" | (sep) "t = ''--''" | (opt) "option_token t"
  by (auto simp: option_token_def)

lemma sep_not_positional [simp]: "\<not> positional ''--''"
  by (simp add: positional_def)

lemma sep_not_option [simp]: "\<not> option_token ''--''"
  by (simp add: option_token_def)

lemma step_positional:
  "positional t \<Longrightarrow> parse_loop b (t # ts) cli w =
     (case cli_da_append (args cli) t of
        Inl f \<Rightarrow> Inl f
      | Inr a \<Rightarrow> parse_loop b ts (cli\<lparr>args := a\<rparr>) w)"
  by (simp add: c_at_0)

lemma step_sep:
  "parse_loop b (''--'' # ts) cli w =
     (if length_sa (args cli) > 0 then
        (case da_read (args cli) (uint (length_sa (args cli)) - 1) of
           Inl f \<Rightarrow> Inl f
         | Inr last_arg \<Rightarrow>
             Inr (CliErrorUser, cli,
                  cli_print_error ''CLI error'' (user_error_message ''--'' last_arg) w))
      else parse_loop True ts cli w)"
  by (simp add: c_at_def)

lemma step_option:
  assumes "c_string t" "option_token t"
  shows "parse_loop b (t # ts) cli w =
     (if b then
        (case cli_da_append (cmd_options cli) t of
           Inl f \<Rightarrow> Inl f
         | Inr a \<Rightarrow> parse_loop b ts (cli\<lparr>cmd_options := a\<rparr>) w)
      else
        (case cli_da_append (program_options cli) t of
           Inl f \<Rightarrow> Inl f
         | Inr a \<Rightarrow> parse_loop b ts (cli\<lparr>program_options := a\<rparr>) w))"
proof -
  from assms(2) have d: "c_at t 0 = CHR ''-''" and n: "t \<noteq> ''--''"
    by (simp_all add: c_at_0 option_token_def)
  from c_at_sep [OF assms(1)] d n have "\<not> (c_at t (Suc 0) = CHR ''-'' \<and> c_at t 2 = CHR 0x00)"
    by simp
  then have "(c_at t 1 = CHR ''-'' \<and> c_at t 2 = CHR 0x00) = False"
    by simp
  then show ?thesis
    by (simp only: parse_loop.simps d if_True if_False refl)
qed

lemma parse_loop_frame:
  "parse_loop b ts cli w = Inr (r, cli', w') \<Longrightarrow>
     command cli' = command cli \<and> execfile cli' = execfile cli"
  by (induction ts arbitrary: cli b) (auto split: if_splits sum.splits)

lemma parse_loop_not_Fatal:
  "parse_loop b ts cli w = Inr (r, cli', w') \<Longrightarrow> r \<noteq> CliErrorFatal"
  by (induction ts arbitrary: cli b) (auto split: if_splits sum.splits)

lemma parse_loop_inv:
  "parse_loop b ts cli w = Inr (r, cli', w') \<Longrightarrow> inv_Cli cli \<Longrightarrow> inv_Cli cli'"
  by (induction ts arbitrary: cli b)
     (auto simp: inv_Cli_def split: if_splits sum.splits dest: append_le)

lemma parse_loop_cmd_scope:
  "parse_loop True ts cli w = Inr (r, cli', w') \<Longrightarrow> program_options cli' = program_options cli"
  by (induction ts arbitrary: cli) (auto split: if_splits sum.splits)

lemma wf_Cli_upd:
  "wf_Cli cli \<Longrightarrow> wf_array a \<Longrightarrow> wf_Cli (cli\<lparr>args := a\<rparr>)"
  "wf_Cli cli \<Longrightarrow> wf_array a \<Longrightarrow> wf_Cli (cli\<lparr>cmd_options := a\<rparr>)"
  "wf_Cli cli \<Longrightarrow> wf_array a \<Longrightarrow> wf_Cli (cli\<lparr>program_options := a\<rparr>)"
  by (simp_all add: wf_Cli_def)

lemma parse_loop_Ok:
  assumes "list_all c_string ts" "wf_Cli cli" "parse_loop b ts cli w = Inr (CliErrorOk, cli', w')"
  shows "w' = w \<and> wf_Cli cli'
    \<and> contents (args cli') = contents (args cli) @ filter positional ts
    \<and> contents (program_options cli') = contents (program_options cli)
        @ (if b then [] else filter option_token (takeWhile (\<lambda>t. t \<noteq> ''--'') ts))
    \<and> contents (cmd_options cli') = contents (cmd_options cli)
        @ filter option_token (if b then ts else dropWhile (\<lambda>t. t \<noteq> ''--'') ts)"
  using assms
proof (induction ts arbitrary: cli b)
  case Nil
  then show ?case by simp
next
  case (Cons t ts)
  from Cons.prems(1) have ct: "c_string t" and cts: "list_all c_string ts" by simp_all
  from Cons.prems(2) have wa: "wf_array (args cli)" and wc: "wf_array (cmd_options cli)"
    and wp: "wf_array (program_options cli)" by (simp_all add: wf_Cli_def)
  show ?case
  proof (cases t rule: token_cases)
    case pos
    then have n: "t \<noteq> ''--''" "\<not> option_token t" by (auto simp: option_token_def)
    from append_cases [OF wa, of t] Cons.prems(3) obtain a
      where a: "wf_array a" "contents a = contents (args cli) @ [t]"
        and r: "parse_loop b ts (cli\<lparr>args := a\<rparr>) w = Inr (CliErrorOk, cli', w')"
      by (auto simp: step_positional [OF pos] simp del: parse_loop.simps)
    from Cons.IH [OF cts wf_Cli_upd(1) [OF Cons.prems(2) a(1)] r] show ?thesis
      using pos n a(2) by simp
  next
    case sep
    from Cons.prems(3) have r: "parse_loop True ts cli w = Inr (CliErrorOk, cli', w')"
      unfolding sep step_sep by (auto split: if_splits sum.splits)
    from Cons.IH [OF cts Cons.prems(2) r] show ?thesis
      by (simp add: sep)
  next
    case opt
    then have n: "t \<noteq> ''--''" "\<not> positional t" by (auto simp: option_token_def)
    show ?thesis
    proof (cases b)
      case True
      from append_cases [OF wc, of t] Cons.prems(3) obtain a
        where a: "wf_array a" "contents a = contents (cmd_options cli) @ [t]"
          and r: "parse_loop b ts (cli\<lparr>cmd_options := a\<rparr>) w = Inr (CliErrorOk, cli', w')"
        by (auto simp: step_option [OF ct opt] True simp del: parse_loop.simps)
      from Cons.IH [OF cts wf_Cli_upd(2) [OF Cons.prems(2) a(1)] r] show ?thesis
        using opt n a(2) True by simp
    next
      case False
      from append_cases [OF wp, of t] Cons.prems(3) obtain a
        where a: "wf_array a" "contents a = contents (program_options cli) @ [t]"
          and r: "parse_loop b ts (cli\<lparr>program_options := a\<rparr>) w = Inr (CliErrorOk, cli', w')"
        by (auto simp: step_option [OF ct opt] False simp del: parse_loop.simps)
      from Cons.IH [OF cts wf_Cli_upd(3) [OF Cons.prems(2) a(1)] r] show ?thesis
        using opt n a(2) False by simp
    qed
  qed
qed

lemma parse_loop_prefix:
  assumes "list_all c_string pre" "parse_loop b pre cli w = Inr (CliErrorOk, cli1, w1)"
  shows "parse_loop b (pre @ post) cli w = parse_loop (b \<or> ''--'' \<in> set pre) post cli1 w1"
  using assms
proof (induction pre arbitrary: cli b)
  case Nil
  then show ?case by simp
next
  case (Cons t ts)
  from Cons.prems(1) have ct: "c_string t" and cts: "list_all c_string ts" by simp_all
  show ?case
  proof (cases t rule: token_cases)
    case pos
    then have n: "t \<noteq> ''--''" by auto
    from Cons.prems(2) obtain a where a: "cli_da_append (args cli) t = Inr a"
        and r: "parse_loop b ts (cli\<lparr>args := a\<rparr>) w = Inr (CliErrorOk, cli1, w1)"
      by (auto simp: step_positional [OF pos] simp del: parse_loop.simps split: sum.splits)
    from Cons.IH [OF cts r] show ?thesis
      using n a by (simp add: step_positional [OF pos] del: parse_loop.simps)
  next
    case sep
    from Cons.prems(2) have z: "\<not> 0 < length_sa (args cli)"
      and r: "parse_loop True ts cli w = Inr (CliErrorOk, cli1, w1)"
      unfolding sep step_sep by (auto split: if_splits sum.splits)
    from Cons.IH [OF cts r] show ?thesis
      using z by (simp add: sep step_sep del: parse_loop.simps)
  next
    case opt
    then have n: "t \<noteq> ''--''" by (auto simp: option_token_def)
    show ?thesis
    proof (cases b)
      case True
      from Cons.prems(2) obtain a where a: "cli_da_append (cmd_options cli) t = Inr a"
          and r: "parse_loop b ts (cli\<lparr>cmd_options := a\<rparr>) w = Inr (CliErrorOk, cli1, w1)"
        by (auto simp: step_option [OF ct opt] True simp del: parse_loop.simps split: sum.splits)
      from Cons.IH [OF cts r] show ?thesis
        using n a True by (simp add: step_option [OF ct opt] del: parse_loop.simps)
    next
      case False
      from Cons.prems(2) obtain a where a: "cli_da_append (program_options cli) t = Inr a"
          and r: "parse_loop b ts (cli\<lparr>program_options := a\<rparr>) w = Inr (CliErrorOk, cli1, w1)"
        by (auto simp: step_option [OF ct opt] False simp del: parse_loop.simps split: sum.splits)
      from Cons.IH [OF cts r] show ?thesis
        using n a False by (simp add: step_option [OF ct opt] del: parse_loop.simps)
    qed
  qed
qed

lemma parse_loop_User:
  assumes "list_all c_string ts" "wf_Cli cli" "parse_loop b ts cli w = Inr (CliErrorUser, cli', w')"
  shows "\<exists>pre post. ts = pre @ ''--'' # post
      \<and> parse_loop b pre cli w = Inr (CliErrorOk, cli', w) \<and> 0 < length_sa (args cli')
      \<and> w' = cli_print_error ''CLI error''
                (user_error_message ''--'' (last (contents (args cli')))) w"
  using assms
proof (induction ts arbitrary: cli b)
  case Nil
  then show ?case by simp
next
  case (Cons t ts)
  from Cons.prems(1) have ct: "c_string t" and cts: "list_all c_string ts" by simp_all
  from Cons.prems(2) have wa: "wf_array (args cli)" and wc: "wf_array (cmd_options cli)"
    and wp: "wf_array (program_options cli)" by (simp_all add: wf_Cli_def)
  show ?case
  proof (cases t rule: token_cases)
    case pos
    from append_cases [OF wa, of t] Cons.prems(3) obtain a
      where a: "wf_array a" "cli_da_append (args cli) t = Inr a"
        and r: "parse_loop b ts (cli\<lparr>args := a\<rparr>) w = Inr (CliErrorUser, cli', w')"
      by (auto simp: step_positional [OF pos] simp del: parse_loop.simps)
    from Cons.IH [OF cts wf_Cli_upd(1) [OF Cons.prems(2) a(1)] r] obtain pre post
      where p: "ts = pre @ ''--'' # post"
        "parse_loop b pre (cli\<lparr>args := a\<rparr>) w = Inr (CliErrorOk, cli', w)"
        "0 < length_sa (args cli')"
        "w' = cli_print_error ''CLI error''
                (user_error_message ''--'' (last (contents (args cli')))) w"
      by blast
    have "parse_loop b (t # pre) cli w = Inr (CliErrorOk, cli', w)"
      using p(2) a(2) by (simp add: step_positional [OF pos] del: parse_loop.simps)
    with p(1,3,4) show ?thesis
      by (intro exI [of _ "t # pre"] exI [of _ post]) simp
  next
    case sep
    show ?thesis
    proof (cases "0 < length_sa (args cli)")
      case True
      from read_last [OF wa True] Cons.prems(3) True
      have "cli' = cli" "w' = cli_print_error ''CLI error''
                (user_error_message ''--'' (last (contents (args cli)))) w"
        unfolding sep step_sep by auto
      with True sep show ?thesis
        by (intro exI [of _ "[]"] exI [of _ ts]) simp
    next
      case False
      with Cons.prems(3) have r: "parse_loop True ts cli w = Inr (CliErrorUser, cli', w')"
        unfolding sep step_sep by simp
      from Cons.IH [OF cts Cons.prems(2) r] obtain pre post
        where p: "ts = pre @ ''--'' # post"
          "parse_loop True pre cli w = Inr (CliErrorOk, cli', w)"
          "0 < length_sa (args cli')"
          "w' = cli_print_error ''CLI error''
                  (user_error_message ''--'' (last (contents (args cli')))) w"
        by blast
      have "parse_loop b (t # pre) cli w = Inr (CliErrorOk, cli', w)"
        using p(2) False unfolding sep step_sep by simp
      with p(1,3,4) show ?thesis
        by (intro exI [of _ "t # pre"] exI [of _ post]) simp
    qed
  next
    case opt
    show ?thesis
    proof (cases b)
      case True
      from append_cases [OF wc, of t] Cons.prems(3) obtain a
        where a: "wf_array a" "cli_da_append (cmd_options cli) t = Inr a"
          and r: "parse_loop b ts (cli\<lparr>cmd_options := a\<rparr>) w = Inr (CliErrorUser, cli', w')"
        by (auto simp: step_option [OF ct opt] True simp del: parse_loop.simps)
      from Cons.IH [OF cts wf_Cli_upd(2) [OF Cons.prems(2) a(1)] r] obtain pre post
        where p: "ts = pre @ ''--'' # post"
          "parse_loop b pre (cli\<lparr>cmd_options := a\<rparr>) w = Inr (CliErrorOk, cli', w)"
          "0 < length_sa (args cli')"
          "w' = cli_print_error ''CLI error''
                  (user_error_message ''--'' (last (contents (args cli')))) w"
        by blast
      have "parse_loop b (t # pre) cli w = Inr (CliErrorOk, cli', w)"
        using p(2) a(2) True by (simp add: step_option [OF ct opt] del: parse_loop.simps)
      with p(1,3,4) show ?thesis
        by (intro exI [of _ "t # pre"] exI [of _ post]) simp
    next
      case False
      from append_cases [OF wp, of t] Cons.prems(3) obtain a
        where a: "wf_array a" "cli_da_append (program_options cli) t = Inr a"
          and r: "parse_loop b ts (cli\<lparr>program_options := a\<rparr>) w = Inr (CliErrorUser, cli', w')"
        by (auto simp: step_option [OF ct opt] False simp del: parse_loop.simps)
      from Cons.IH [OF cts wf_Cli_upd(3) [OF Cons.prems(2) a(1)] r] obtain pre post
        where p: "ts = pre @ ''--'' # post"
          "parse_loop b pre (cli\<lparr>program_options := a\<rparr>) w = Inr (CliErrorOk, cli', w)"
          "0 < length_sa (args cli')"
          "w' = cli_print_error ''CLI error''
                  (user_error_message ''--'' (last (contents (args cli')))) w"
        by blast
      have "parse_loop b (t # pre) cli w = Inr (CliErrorOk, cli', w)"
        using p(2) a(2) False by (simp add: step_option [OF ct opt] del: parse_loop.simps)
      with p(1,3,4) show ?thesis
        by (intro exI [of _ "t # pre"] exI [of _ post]) simp
    qed
  qed
qed

lemma parse_loop_User_conv:
  assumes "list_all c_string pre" "wf_Cli cli"
    "parse_loop b pre cli w = Inr (CliErrorOk, cli1, w1)" "0 < length_sa (args cli1)"
  shows "parse_loop b (pre @ ''--'' # post) cli w =
     Inr (CliErrorUser, cli1,
          cli_print_error ''CLI error''
            (user_error_message ''--'' (last (contents (args cli1)))) w1)"
proof -
  from parse_loop_Ok [OF assms(1,2,3)] have "wf_array (args cli1)" by (simp add: wf_Cli_def)
  from read_last [OF this assms(4)] show ?thesis
    unfolding parse_loop_prefix [OF assms(1,3)] step_sep using assms(4) by simp
qed

lemma parse_loop_total:
  assumes "list_all c_string ts" "wf_Cli cli"
    "unat (length_sa (args cli)) + length (filter positional ts) \<le> unat (capacity (args cli))"
    "unat (length_sa (program_options cli))
       + (if b then 0 else length (filter option_token (takeWhile (\<lambda>t. t \<noteq> ''--'') ts)))
     \<le> unat (capacity (program_options cli))"
    "unat (length_sa (cmd_options cli))
       + length (filter option_token (if b then ts else dropWhile (\<lambda>t. t \<noteq> ''--'') ts))
     \<le> unat (capacity (cmd_options cli))"
  shows "\<exists>r. parse_loop b ts cli w = Inr r"
  using assms
proof (induction ts arbitrary: cli b)
  case Nil
  then show ?case by simp
next
  case (Cons t ts)
  from Cons.prems(1) have ct: "c_string t" and cts: "list_all c_string ts" by simp_all
  from Cons.prems(2) have wa: "wf_array (args cli)" and wc: "wf_array (cmd_options cli)"
    and wp: "wf_array (program_options cli)" by (simp_all add: wf_Cli_def)
  show ?case
  proof (cases t rule: token_cases)
    case pos
    then have n: "t \<noteq> ''--''" "\<not> option_token t" by (auto simp: option_token_def)
    from Cons.prems(3) pos have "length_sa (args cli) \<noteq> capacity (args cli)" by auto
    with append_cases [OF wa, of t] obtain a
      where a: "wf_array a" "cli_da_append (args cli) t = Inr a" "capacity a = capacity (args cli)"
        "unat (length_sa a) = Suc (unat (length_sa (args cli)))"
      by auto
    have "\<exists>r. parse_loop b ts (cli\<lparr>args := a\<rparr>) w = Inr r"
      using n pos a(3,4) Cons.prems(3,4,5)
      by (intro Cons.IH [OF cts wf_Cli_upd(1) [OF Cons.prems(2) a(1)]]) (auto split: if_splits)
    then show ?thesis
      using a(2) by (simp add: step_positional [OF pos] del: parse_loop.simps)
  next
    case sep
    show ?thesis
    proof (cases "0 < length_sa (args cli)")
      case True
      from read_last [OF wa True] True show ?thesis
        unfolding sep step_sep by simp
    next
      case False
      have "\<exists>r. parse_loop True ts cli w = Inr r"
        using sep Cons.prems(3,4,5)
        by (intro Cons.IH [OF cts Cons.prems(2)]) (auto split: if_splits)
      with False show ?thesis
        unfolding sep step_sep by simp
    qed
  next
    case opt
    then have n: "t \<noteq> ''--''" "\<not> positional t" by (auto simp: option_token_def)
    show ?thesis
    proof (cases b)
      case True
      from Cons.prems(5) opt True have "length_sa (cmd_options cli) \<noteq> capacity (cmd_options cli)"
        by auto
      with append_cases [OF wc, of t] obtain a
        where a: "wf_array a" "cli_da_append (cmd_options cli) t = Inr a"
          "capacity a = capacity (cmd_options cli)"
          "unat (length_sa a) = Suc (unat (length_sa (cmd_options cli)))"
        by auto
      have "\<exists>r. parse_loop b ts (cli\<lparr>cmd_options := a\<rparr>) w = Inr r"
        using True opt n a(3,4) Cons.prems(3,4,5)
        by (intro Cons.IH [OF cts wf_Cli_upd(2) [OF Cons.prems(2) a(1)]]) (auto split: if_splits)
      then show ?thesis
        using a(2) True by (simp add: step_option [OF ct opt] del: parse_loop.simps)
    next
      case False
      from Cons.prems(4) opt n False
      have "length_sa (program_options cli) \<noteq> capacity (program_options cli)"
        by auto
      with append_cases [OF wp, of t] obtain a
        where a: "wf_array a" "cli_da_append (program_options cli) t = Inr a"
          "capacity a = capacity (program_options cli)"
          "unat (length_sa a) = Suc (unat (length_sa (program_options cli)))"
        by auto
      have "\<exists>r. parse_loop b ts (cli\<lparr>program_options := a\<rparr>) w = Inr r"
        using False opt n a(3,4) Cons.prems(3,4,5)
        by (intro Cons.IH [OF cts wf_Cli_upd(3) [OF Cons.prems(2) a(1)]]) (auto split: if_splits)
      then show ?thesis
        using a(2) False by (simp add: step_option [OF ct opt] del: parse_loop.simps)
    qed
  qed
qed

section \<open>Lemmas on \<^verbatim>\<open>cli_parse\<close>\<close>

lemma cli_parse_allocated:
  assumes "ts \<noteq> []" "mallocs w = True # True # True # rest"
  shows "cli_parse (exec # ts) cli w =
     parse_loop False ts (init_Cli exec cli) (w\<lparr>mallocs := rest, live := live w + 3\<rparr>)"
proof -
  have a: "a\<lparr>capacity := 5, length_sa := 0, data := Some (replicate 5 None)\<rparr> = fresh_array"
    for a :: CliStringArray
    by (simp add: fresh_array_def)
  have e: "cli\<lparr>execfile := Some exec, args := fresh_array, cmd_options := fresh_array,
      program_options := fresh_array\<rparr> = init_Cli exec cli"
    by (simp add: init_Cli_def)
  have n: "Suc (Suc (Suc (live w))) = live w + 3" by simp
  have "cli_parse (exec # ts) cli w =
     parse_loop False ts
       (cli\<lparr>execfile := Some exec,
           args := (args cli)\<lparr>capacity := 5, length_sa := 0, data := Some (replicate 5 None)\<rparr>,
           cmd_options := (cmd_options cli)\<lparr>capacity := 5, length_sa := 0,
             data := Some (replicate 5 None)\<rparr>,
           program_options := (program_options cli)\<lparr>capacity := 5, length_sa := 0,
             data := Some (replicate 5 None)\<rparr>\<rparr>)
       (w\<lparr>mallocs := rest, live := Suc (Suc (Suc (live w)))\<rparr>)"
    using assms
    by (simp add: cli_parse_def cli_pop_argv_def cli_da_init_def CLI_MALLOC_def
        CLI_DEFAULT_ARR_CAP_def Let_def)
  then show ?thesis by (simp only: a e n)
qed

lemma cli_parse_fatal:
  assumes "ts \<noteq> []" "length (takeWhile id (mallocs w)) < 3"
  shows "\<exists>cli' w'. cli_parse (exec # ts) cli w = Inr (CliErrorFatal, cli', w')"
proof -
  from assms(2) consider "mallocs w = []" | r where "mallocs w = False # r"
    | "mallocs w = [True]" | r where "mallocs w = True # False # r"
    | "mallocs w = [True, True]" | r where "mallocs w = True # True # False # r"
    by (cases "mallocs w" rule: list.exhaust; simp split: if_splits;
        rename_tac a l; case_tac l; simp split: if_splits;
        rename_tac a2 l2; case_tac l2; simp split: if_splits)
  then show ?thesis
    using assms(1)
    by cases
      (simp_all add: cli_parse_def cli_pop_argv_def cli_da_init_def CLI_MALLOC_def
        CLI_DEFAULT_ARR_CAP_def Let_def)
qed

lemma cli_parse_loop:
  assumes "ts \<noteq> []" "cli_parse (exec # ts) cli w = Inr (r, cli', w')" "r \<noteq> CliErrorFatal"
  shows "\<exists>rest. mallocs w = True # True # True # rest
     \<and> parse_loop False ts (init_Cli exec cli) (w\<lparr>mallocs := rest, live := live w + 3\<rparr>)
         = Inr (r, cli', w')"
proof -
  have "\<not> length (takeWhile id (mallocs w)) < 3"
    using cli_parse_fatal [OF assms(1), of w exec cli] assms(2,3) by auto
  then obtain rest where m: "mallocs w = True # True # True # rest"
    by (cases "mallocs w" rule: list.exhaust; simp split: if_splits;
        rename_tac a l; case_tac l; simp split: if_splits;
        rename_tac a2 l2; case_tac l2; simp split: if_splits)
  with cli_parse_allocated [OF assms(1) m, of exec cli] assms(2) show ?thesis by simp
qed

lemma replicate_5: "replicate 5 x = [x, x, x, x, x]"
  by (simp add: eval_nat_numeral)

lemmas eval_defs = replicate_5 cli_parse_def cli_pop_argv_def cli_da_init_def CLI_MALLOC_def
  CLI_DEFAULT_ARR_CAP_def Let_def cli_da_append_def c_at_def da_read_def cli_print_error_def
  example_world_def zero_Cli_def zero_array_def initial_styles_def CLI_ERROR_SYM_def
  user_error_message_def

lemma cli_parse_Ok_contents:
  assumes "list_all c_string ts" "ts \<noteq> []"
    "cli_parse (exec # ts) cli w = Inr (CliErrorOk, cli', w')"
  shows "wf_Cli cli'"
    and "contents (args cli') = filter positional ts"
    and "contents (program_options cli') = filter option_token (takeWhile (\<lambda>t. t \<noteq> ''--'') ts)"
    and "contents (cmd_options cli') = filter option_token (dropWhile (\<lambda>t. t \<noteq> ''--'') ts)"
proof -
  from cli_parse_loop [OF assms(2,3)] obtain rest
    where l: "parse_loop False ts (init_Cli exec cli) (w\<lparr>mallocs := rest, live := live w + 3\<rparr>)
         = Inr (CliErrorOk, cli', w')"
    by auto
  note r = parse_loop_Ok [OF assms(1) wf_init l]
  from r show "wf_Cli cli'" by simp
  from r show "contents (args cli') = filter positional ts"
    by (simp add: init_Cli_def contents_fresh)
  from r show "contents (program_options cli') = filter option_token (takeWhile (\<lambda>t. t \<noteq> ''--'') ts)"
    by (simp add: init_Cli_def contents_fresh)
  from r show "contents (cmd_options cli') = filter option_token (dropWhile (\<lambda>t. t \<noteq> ''--'') ts)"
    by (simp add: init_Cli_def contents_fresh)
qed

lemma classes_partition:
  "mset (filter positional ts) + mset (filter option_token ts) = mset (filter (\<lambda>t. t \<noteq> ''--'') ts)"
  by (induction ts) (auto simp: option_token_def)

lemma scope_split:
  "mset (filter P (takeWhile Q ts)) + mset (filter P (dropWhile Q ts)) = mset (filter P ts)"
proof -
  have "filter P ts = filter P (takeWhile Q ts @ dropWhile Q ts)" by simp
  also have "mset \<dots> = mset (filter P (takeWhile Q ts)) + mset (filter P (dropWhile Q ts))"
    by (simp only: filter_append mset_append)
  finally show ?thesis by simp
qed

lemma example_ab:
  assumes "mallocs w = True # True # True # rest"
  shows "\<exists>cli' w'. cli_parse [exec, ''-a'', ''--'', ''-b''] cli w = Inr (CliErrorOk, cli', w')
     \<and> contents (program_options cli') = [''-a''] \<and> contents (cmd_options cli') = [''-b'']
     \<and> contents (args cli') = []"
  unfolding cli_parse_allocated [OF _ assms, of "[''-a'', ''--'', ''-b'']" exec cli, simplified]
  by (simp add: init_Cli_def fresh_array_def cli_da_append_def c_at_def contents_def
      map_filter_def replicate_5)

lemma args_nonempty_iff:
  assumes "list_all c_string ts" "ts \<noteq> []"
    "cli_parse (exec # ts) cli w = Inr (CliErrorOk, cli', w')"
  shows "(0 < length_sa (args cli')) = (\<exists>t\<in>set ts. positional t)"
proof -
  note r = cli_parse_Ok_contents [OF assms]
  from r(1) have "wf_array (args cli')" by (simp add: wf_Cli_def)
  from wf_contents_length [OF this] r(2)
  have "unat (length_sa (args cli')) = length (filter positional ts)" by simp
  moreover have "(0 < length_sa (args cli')) = (0 < unat (length_sa (args cli')))"
    by (simp add: word_less_nat_alt)
  ultimately show ?thesis by (simp add: filter_empty_conv)
qed

lemma cli_parse_user_conv:
  assumes "list_all c_string pre" "\<exists>t\<in>set pre. positional t"
    "cli_parse (exec # pre) cli w = Inr (CliErrorOk, cli1, w1)"
  shows "cli_parse (exec # pre @ ''--'' # post) cli w =
     Inr (CliErrorUser, cli1,
          cli_print_error ''CLI error''
            (user_error_message ''--'' (last (filter positional pre))) w1)"
proof -
  from assms(2) have ne: "pre \<noteq> []" by auto
  from cli_parse_loop [OF ne assms(3)] obtain rest
    where m: "mallocs w = True # True # True # rest"
      and l: "parse_loop False pre (init_Cli exec cli) (w\<lparr>mallocs := rest, live := live w + 3\<rparr>)
         = Inr (CliErrorOk, cli1, w1)"
    by auto
  from args_nonempty_iff [OF assms(1) ne assms(3)] assms(2)
  have p: "0 < length_sa (args cli1)" by simp
  have c: "contents (args cli1) = filter positional pre"
    by (rule cli_parse_Ok_contents(2) [OF assms(1) ne assms(3)])
  have "pre @ ''--'' # post \<noteq> []" by simp
  from cli_parse_allocated [OF this m, of exec cli]
    parse_loop_User_conv [OF assms(1) wf_init l p, of post]
  show ?thesis by (simp add: c)
qed

lemma cli_parse_user_dest:
  assumes "list_all c_string ts"
    "cli_parse (exec # ts) cli w = Inr (CliErrorUser, cli', w')"
  shows "\<exists>pre post w1. ts = pre @ ''--'' # post \<and> (\<exists>t\<in>set pre. positional t)
     \<and> cli_parse (exec # pre) cli w = Inr (CliErrorOk, cli', w1)"
proof -
  have ne: "ts \<noteq> []"
    using assms(2) by (auto simp: cli_parse_def cli_pop_argv_def)
  from cli_parse_loop [OF ne assms(2)] obtain rest
    where m: "mallocs w = True # True # True # rest"
      and l: "parse_loop False ts (init_Cli exec cli) (w\<lparr>mallocs := rest, live := live w + 3\<rparr>)
         = Inr (CliErrorUser, cli', w')"
    by auto
  from parse_loop_User [OF assms(1) wf_init l] obtain pre post
    where p: "ts = pre @ ''--'' # post"
      "parse_loop False pre (init_Cli exec cli) (w\<lparr>mallocs := rest, live := live w + 3\<rparr>)
         = Inr (CliErrorOk, cli', w\<lparr>mallocs := rest, live := live w + 3\<rparr>)"
      "0 < length_sa (args cli')"
    by blast
  from assms(1) p(1) have cp: "list_all c_string pre" by simp
  have pne: "pre \<noteq> []"
  proof
    assume "pre = []"
    with p(2,3) show False by (auto simp: init_Cli_def fresh_array_def)
  qed
  from cli_parse_allocated [OF pne m, of exec cli] p(2)
  have ok: "cli_parse (exec # pre) cli w
      = Inr (CliErrorOk, cli', w\<lparr>mallocs := rest, live := live w + 3\<rparr>)"
    by simp
  from args_nonempty_iff [OF cp pne ok] p(3) have "\<exists>t\<in>set pre. positional t" by simp
  with p(1) ok show ?thesis by blast
qed

lemma example_pos_sep:
  assumes "positional p" "mallocs w = True # True # True # rest"
  shows "\<exists>cli' w'. cli_parse (exec # p # ''--'' # others) cli w = Inr (CliErrorUser, cli', w')
     \<and> contents (args cli') = [p] \<and> contents (cmd_options cli') = []
     \<and> contents (program_options cli') = []"
proof -
  define a where "a = \<lparr>length_sa = 1, capacity = 5,
    data = Some [Some p, None, None, None, None]\<rparr>"
  have ne: "p # ''--'' # others \<noteq> []" by simp
  have ap: "cli_da_append fresh_array p = Inr a"
    by (simp add: fresh_array_def cli_da_append_def replicate_5 a_def)
  have rd: "da_read a (uint (length_sa a) - 1) = Inr p" "0 < length_sa a"
    by (simp_all add: da_read_def a_def)
  have c: "contents a = [p]"
    by (simp add: contents_def a_def map_filter_def)
  have "parse_loop False (p # ''--'' # others) (init_Cli exec cli)
      (w\<lparr>mallocs := rest, live := live w + 3\<rparr>)
    = Inr (CliErrorUser, (init_Cli exec cli)\<lparr>args := a\<rparr>,
        cli_print_error ''CLI error'' (user_error_message ''--'' p)
          (w\<lparr>mallocs := rest, live := live w + 3\<rparr>))"
    by (simp add: step_positional [OF assms(1)] step_sep ap rd init_Cli_def
        del: parse_loop.simps)
  then show ?thesis
    unfolding cli_parse_allocated [OF ne assms(2)]
    by (simp add: c init_Cli_def contents_fresh)
qed

lemma cli_parse_command:
  "ts \<noteq> [] \<Longrightarrow> cli_parse (exec # ts) cli w = Inr (r, cli', w') \<Longrightarrow>
     command cli' = command cli"
  by (auto simp: cli_parse_def cli_pop_argv_def Let_def split: if_splits prod.splits
      dest: parse_loop_frame)

lemma mallocs_cases:
  assumes "length (takeWhile id (mallocs w)) < 3"
  obtains "mallocs w = []" | r where "mallocs w = False # r"
    | "mallocs w = [True]" | r where "mallocs w = True # False # r"
    | "mallocs w = [True, True]" | r where "mallocs w = True # True # False # r"
  using assms
  by (cases "mallocs w" rule: list.exhaust; simp split: if_splits;
      rename_tac a l; case_tac l; simp split: if_splits;
      rename_tac a2 l2; case_tac l2; simp split: if_splits)

lemma world_id: "mallocs w = [] \<Longrightarrow> w\<lparr>mallocs := []\<rparr> = w"
  by (cases w) simp

lemma world_swap: "w\<lparr>live := a, mallocs := b\<rparr> = w\<lparr>mallocs := b, live := a\<rparr>"
  by (cases w) simp

lemma cli_parse_fatal_result:
  assumes "ts \<noteq> []" "k = length (takeWhile id (mallocs w))" "k < 3"
  shows "cli_parse (exec # ts) cli w =
     Inr (CliErrorFatal,
          \<lparr>execfile = Some exec, command = command cli,
           args = (if 0 < k then fresh_array else null_array),
           cmd_options =
             (if 1 < k then fresh_array else if k = 1 then null_array else cmd_options cli),
           program_options = (if k = 2 then null_array else program_options cli)\<rparr>,
          cli_print_error ''Memory error'' (memory_error_messages ! k)
            (w\<lparr>mallocs := drop (Suc k) (mallocs w), live := live w + k\<rparr>))"
proof -
  from assms(3) have "length (takeWhile id (mallocs w)) < 3" by (simp add: assms(2))
  then show ?thesis
  proof (cases rule: mallocs_cases)
    case 1
    then show ?thesis using assms(1,2)
      by (simp add: cli_parse_def cli_pop_argv_def cli_da_init_def CLI_MALLOC_def
          CLI_DEFAULT_ARR_CAP_def Let_def null_array_def memory_error_messages_def world_id)
  next
    case (2 r)
    then show ?thesis using assms(1,2)
      by (simp add: cli_parse_def cli_pop_argv_def cli_da_init_def CLI_MALLOC_def
          CLI_DEFAULT_ARR_CAP_def Let_def null_array_def memory_error_messages_def world_swap)
  next
    case 3
    then show ?thesis using assms(1,2)
      by (simp add: cli_parse_def cli_pop_argv_def cli_da_init_def CLI_MALLOC_def
          CLI_DEFAULT_ARR_CAP_def Let_def null_array_def fresh_array_def
          memory_error_messages_def world_swap)
  next
    case (4 r)
    then show ?thesis using assms(1,2)
      by (simp add: cli_parse_def cli_pop_argv_def cli_da_init_def CLI_MALLOC_def
          CLI_DEFAULT_ARR_CAP_def Let_def null_array_def fresh_array_def
          memory_error_messages_def world_swap)
  next
    case 5
    then show ?thesis using assms(1,2)
      by (simp add: cli_parse_def cli_pop_argv_def cli_da_init_def CLI_MALLOC_def
          CLI_DEFAULT_ARR_CAP_def Let_def null_array_def fresh_array_def
          memory_error_messages_def world_swap)
  next
    case (6 r)
    then show ?thesis using assms(1,2)
      by (simp add: cli_parse_def cli_pop_argv_def cli_da_init_def CLI_MALLOC_def
          CLI_DEFAULT_ARR_CAP_def Let_def null_array_def fresh_array_def
          memory_error_messages_def world_swap)
  qed
qed

lemma append_all_ok:
  assumes "wf_array a" "unat (length_sa a) + length xs \<le> unat (capacity a)"
  shows "\<exists>a1. append_all a xs = Inr a1 \<and> wf_array a1 \<and> contents a1 = contents a @ xs
     \<and> capacity a1 = capacity a \<and> unat (length_sa a1) = unat (length_sa a) + length xs"
  using assms
proof (induction xs arbitrary: a)
  case Nil
  then show ?case by simp
next
  case (Cons x xs)
  from Cons.prems(2) have "length_sa a < capacity a" by (simp add: word_less_nat_alt)
  from append_ok [OF Cons.prems(1) this, of x] obtain a'
    where a: "cli_da_append a x = Inr a'" "wf_array a'" "contents a' = contents a @ [x]"
      "capacity a' = capacity a" "unat (length_sa a') = Suc (unat (length_sa a))"
    by blast
  from Cons.prems(2) a(4,5) have "unat (length_sa a') + length xs \<le> unat (capacity a')"
    by simp
  from Cons.IH [OF a(2) this] a show ?case by auto
qed

lemma append_all_append:
  "append_all a (xs @ ys) =
     (case append_all a xs of Inl f \<Rightarrow> Inl f | Inr a1 \<Rightarrow> append_all a1 ys)"
  by (induction xs arbitrary: a) (auto split: sum.splits)

lemma init_allocated:
  assumes "cli_da_init a w = (a0, w0)"
  shows "length_sa a0 = 0 \<and> capacity a0 = 5 \<and> (data a0 \<noteq> None \<longrightarrow> a0 = fresh_array)"
  using assms
  by (auto simp: cli_da_init_def CLI_MALLOC_def CLI_DEFAULT_ARR_CAP_def fresh_array_def
      split: list.splits if_splits)

lemma fresh_five:
  assumes "length xs \<le> 5"
  shows "\<exists>a1. append_all fresh_array xs = Inr a1 \<and> contents a1 = xs
     \<and> unat (length_sa a1) = length xs \<and> length_sa a1 \<le> capacity a1 \<and> capacity a1 = 5"
proof -
  have f: "unat (length_sa fresh_array) = 0" "capacity fresh_array = 5"
    by (simp_all add: fresh_array_def)
  have "unat (length_sa fresh_array) + length xs \<le> unat (capacity fresh_array)"
    using assms by (simp add: f)
  from append_all_ok [OF wf_fresh this] obtain a1
    where a: "append_all fresh_array xs = Inr a1" "wf_array a1"
      "contents a1 = contents fresh_array @ xs" "capacity a1 = capacity fresh_array"
      "unat (length_sa a1) = unat (length_sa fresh_array) + length xs"
    by blast
  from a(2) have "length_sa a1 \<le> capacity a1"
    by (auto simp: wf_array_def split: option.splits)
  with a show ?thesis by (simp add: contents_fresh f)
qed

lemma fresh_sixth:
  assumes "length xs = 5"
  shows "append_all fresh_array (xs @ [y]) = Inl AssertCapacity"
proof -
  from fresh_five [of xs] assms obtain a1
    where a: "append_all fresh_array xs = Inr a1" "unat (length_sa a1) = 5" "capacity a1 = 5"
    by auto
  from a(2,3) have "length_sa a1 = capacity a1" by (simp add: word_unat_eq_iff)
  from append_full [OF this, of y] a(3) have "cli_da_append a1 y = Inl AssertCapacity" by simp
  then show ?thesis by (simp add: append_all_append a(1))
qed

lemma cli_parse_within_capacity:
  assumes "list_all c_string ts" "within_capacity ts"
  shows "\<exists>r. cli_parse (exec # ts) cli w = Inr r"
proof (cases "ts = []")
  case True
  then show ?thesis by (simp add: cli_parse_def cli_pop_argv_def)
next
  case False
  show ?thesis
  proof (cases "length (takeWhile id (mallocs w)) < 3")
    case True
    from cli_parse_fatal [OF False True, of exec cli] show ?thesis by blast
  next
    case f: False
    then obtain rest where m: "mallocs w = True # True # True # rest"
      by (cases "mallocs w" rule: list.exhaust; simp split: if_splits;
          rename_tac a l; case_tac l; simp split: if_splits;
          rename_tac a2 l2; case_tac l2; simp split: if_splits)
    from assms(2) have
      "unat (length_sa (args (init_Cli exec cli))) + length (filter positional ts)
        \<le> unat (capacity (args (init_Cli exec cli)))"
      "unat (length_sa (program_options (init_Cli exec cli)))
         + (if False then 0
            else length (filter option_token (takeWhile (\<lambda>t. t \<noteq> ''--'') ts)))
        \<le> unat (capacity (program_options (init_Cli exec cli)))"
      "unat (length_sa (cmd_options (init_Cli exec cli)))
         + length (filter option_token
             (if False then ts else dropWhile (\<lambda>t. t \<noteq> ''--'') ts))
        \<le> unat (capacity (cmd_options (init_Cli exec cli)))"
      by (simp_all add: within_capacity_def CLI_DEFAULT_ARR_CAP_def init_Cli_def
          fresh_array_def)
    from parse_loop_total [OF assms(1) wf_init this,
        of "w\<lparr>mallocs := rest, live := live w + 3\<rparr>"]
    show ?thesis by (simp only: cli_parse_allocated [OF False m])
  qed
qed

lemma cli_parse_inv:
  assumes "cli_parse (exec # ts) cli w = Inr (r, cli', w')" "r \<noteq> CliErrorFatal"
  shows "inv_Cli cli'"
proof (cases "ts = []")
  case True
  with assms(1) show ?thesis
    by (auto simp: cli_parse_def cli_pop_argv_def zero_Cli_def zero_array_def inv_Cli_def)
next
  case False
  from cli_parse_loop [OF False assms] obtain rest
    where l: "parse_loop False ts (init_Cli exec cli)
        (w\<lparr>mallocs := rest, live := live w + 3\<rparr>) = Inr (r, cli', w')"
    by blast
  have "inv_Cli (init_Cli exec cli)"
    by (simp add: inv_Cli_def init_Cli_def fresh_array_def)
  with l show ?thesis by (rule parse_loop_inv)
qed

lemma cli_parse_inv_kept:
  assumes "cli_parse (exec # ts) cli w = Inr (r, cli', w')" "inv_Cli cli"
  shows "inv_Cli cli'"
proof (cases "r = CliErrorFatal")
  case False
  with assms(1) show ?thesis by (rule cli_parse_inv)
next
  case True
  have ne: "ts \<noteq> []"
    using assms(1) True by (auto simp: cli_parse_def cli_pop_argv_def)
  have k: "length (takeWhile id (mallocs w)) < 3"
  proof (rule ccontr)
    assume "\<not> length (takeWhile id (mallocs w)) < 3"
    then obtain rest where m: "mallocs w = True # True # True # rest"
      by (cases "mallocs w" rule: list.exhaust; simp split: if_splits;
          rename_tac a l; case_tac l; simp split: if_splits;
          rename_tac a2 l2; case_tac l2; simp split: if_splits)
    from cli_parse_allocated [OF ne m, of exec cli] assms(1) True
    have "parse_loop False ts (init_Cli exec cli) (w\<lparr>mallocs := rest, live := live w + 3\<rparr>)
        = Inr (CliErrorFatal, cli', w')" by simp
    from parse_loop_not_Fatal [OF this] show False by simp
  qed
  from cli_parse_fatal_result [OF ne refl k, of exec cli] assms(1)
  have "cli' = \<lparr>execfile = Some exec, command = command cli,
           args = (if 0 < length (takeWhile id (mallocs w)) then fresh_array else null_array),
           cmd_options =
             (if 1 < length (takeWhile id (mallocs w)) then fresh_array
              else if length (takeWhile id (mallocs w)) = 1 then null_array
              else cmd_options cli),
           program_options =
             (if length (takeWhile id (mallocs w)) = 2 then null_array
              else program_options cli)\<rparr>"
    by simp
  with assms(2) show ?thesis
    by (simp add: inv_Cli_def fresh_array_def null_array_def)
qed

section \<open>Lemmas on the styles\<close>

lemma toggle_initial: "cli_toggle_colors False initial_styles = ansi_styles"
  by (simp add: cli_toggle_colors_def initial_styles_def ansi_styles_def)

lemma toggle_ansi: "cli_toggle_colors False ansi_styles = initial_styles"
  by (simp add: cli_toggle_colors_def initial_styles_def ansi_styles_def)

lemma toggle_no_styles: "(cli_toggle_colors True ^^ n) s = s"
  by (induction n) (simp_all add: cli_toggle_colors_def)

lemma toggle_reachable:
  "(cli_toggle_colors False ^^ n) initial_styles = (if even n then initial_styles else ansi_styles)"
  by (induction n) (simp_all add: toggle_initial toggle_ansi)

section \<open>The claims\<close>

subsection \<open>Classification of the tokens\<close>

text \<open>
  C1. Whenever \<open>cli_parse\<close> returns \<open>CliErrorOk\<close> on an argument vector with at least one
  token after the invocation path, every token is stored in exactly one array, by its class:
  the positional tokens are the elements of \<open>args\<close>, the options before the first
  \<^verbatim>\<open>--\<close> are the elements of \<open>program_options\<close>, the options after it are the
  elements of \<open>cmd_options\<close>, each with its multiplicity, the three arrays together hold
  every token but the separators, and \<^verbatim>\<open>--\<close> is in none of them. A run that returns
  \<open>CliErrorOk\<close> has not met the capacity assertion, so the bound of five tokens per class need
  not be assumed. In particular, where the three allocations succeed, \<^verbatim>\<open>exec -a -- -b\<close>
  gives \<open>program_options = [-a]\<close>, \<open>cmd_options = [-b]\<close> and \<open>args = []\<close>.
\<close>

theorem cli_parse_classifies:
  "(list_all c_string ts \<and> ts \<noteq> [] \<and> cli_parse (exec # ts) cli w = Inr (CliErrorOk, cli', w')
      \<longrightarrow> mset (contents (args cli')) = filter_mset positional (mset ts)
        \<and> mset (contents (program_options cli'))
            = filter_mset option_token (mset (takeWhile (\<lambda>t. t \<noteq> ''--'') ts))
        \<and> mset (contents (cmd_options cli'))
            = filter_mset option_token (mset (dropWhile (\<lambda>t. t \<noteq> ''--'') ts))
        \<and> mset (contents (args cli')) + mset (contents (cmd_options cli'))
            + mset (contents (program_options cli'))
            = filter_mset (\<lambda>t. t \<noteq> ''--'') (mset ts)
        \<and> ''--'' \<notin> set (contents (args cli')) \<union> set (contents (cmd_options cli'))
            \<union> set (contents (program_options cli')))
   \<and> (mallocs w = True # True # True # rest
      \<longrightarrow> (\<exists>cli2 w2. cli_parse [exec, ''-a'', ''--'', ''-b''] cli w = Inr (CliErrorOk, cli2, w2)
            \<and> contents (program_options cli2) = [''-a'']
            \<and> contents (cmd_options cli2) = [''-b''] \<and> contents (args cli2) = []))"
proof (intro conjI impI)
  assume "mallocs w = True # True # True # rest"
  then show "\<exists>cli2 w2. cli_parse [exec, ''-a'', ''--'', ''-b''] cli w = Inr (CliErrorOk, cli2, w2)
            \<and> contents (program_options cli2) = [''-a'']
            \<and> contents (cmd_options cli2) = [''-b''] \<and> contents (args cli2) = []"
    by (rule example_ab)
next
  assume h: "list_all c_string ts \<and> ts \<noteq> []
    \<and> cli_parse (exec # ts) cli w = Inr (CliErrorOk, cli', w')"
  then have a: "list_all c_string ts" and b: "ts \<noteq> []"
    and c: "cli_parse (exec # ts) cli w = Inr (CliErrorOk, cli', w')" by simp_all
  note r = cli_parse_Ok_contents [OF a b c]
  show "mset (contents (args cli')) = filter_mset positional (mset ts)"
    by (simp add: r(2))
  show "mset (contents (program_options cli'))
            = filter_mset option_token (mset (takeWhile (\<lambda>t. t \<noteq> ''--'') ts))"
    by (simp add: r(3))
  show "mset (contents (cmd_options cli'))
            = filter_mset option_token (mset (dropWhile (\<lambda>t. t \<noteq> ''--'') ts))"
    by (simp add: r(4))
  have "mset (contents (args cli')) + (mset (contents (program_options cli'))
      + mset (contents (cmd_options cli'))) = mset (filter (\<lambda>t. t \<noteq> ''--'') ts)"
    unfolding r(2,3,4) scope_split by (rule classes_partition)
  then show "mset (contents (args cli')) + mset (contents (cmd_options cli'))
            + mset (contents (program_options cli'))
            = filter_mset (\<lambda>t. t \<noteq> ''--'') (mset ts)"
    by (simp add: ac_simps)
  show "''--'' \<notin> set (contents (args cli')) \<union> set (contents (cmd_options cli'))
            \<union> set (contents (program_options cli'))"
    by (simp add: r(2,3,4))
qed

theorem cli_parse_classifies_witness:
  "list_all c_string [''-a'', ''--'', ''-b''] \<and> [''-a'', ''--'', ''-b''] \<noteq> []
   \<and> cli_parse [''exec'', ''-a'', ''--'', ''-b''] zero_Cli example_world
       = Inr (CliErrorOk, example_Cli, example_world\<lparr>mallocs := [], live := 3\<rparr>)
   \<and> mallocs example_world = True # True # True # []
   \<and> mset (contents (args example_Cli)) = {#}
   \<and> mset (contents (program_options example_Cli)) = {#''-a''#}
   \<and> mset (contents (cmd_options example_Cli)) = {#''-b''#}
   \<and> mset (contents (args example_Cli)) + mset (contents (cmd_options example_Cli))
       + mset (contents (program_options example_Cli)) = {#''-a'', ''-b''#}"
proof -
  have h: "list_all c_string [''-a'', ''--'', ''-b''] \<and> [''-a'', ''--'', ''-b''] \<noteq> []
   \<and> cli_parse [''exec'', ''-a'', ''--'', ''-b''] zero_Cli example_world
       = Inr (CliErrorOk, example_Cli, example_world\<lparr>mallocs := [], live := 3\<rparr>)"
    by (simp add: eval_defs c_string_def example_Cli_def)
  have m: "mallocs example_world = True # True # True # []"
    by (simp add: example_world_def)
  have p: "positional ''-a'' = False" "positional ''-b'' = False" "positional ''--'' = False"
    "option_token ''-a''" "option_token ''-b''" "option_token ''--'' = False"
    by (simp_all add: positional_def option_token_def)
  from cli_parse_classifies [of "[''-a'', ''--'', ''-b'']" "''exec''" zero_Cli example_world
      example_Cli "example_world\<lparr>mallocs := [], live := 3\<rparr>" "[]"] h m
  show ?thesis by (simp add: p)
qed

subsection \<open>Order of the tokens\<close>

text \<open>
  C2. Whenever \<open>cli_parse\<close> returns \<open>CliErrorOk\<close> on an argument vector with at least one
  token after the invocation path, each array lists its tokens in the order of the input:
  \<open>args\<close> is the subsequence of the positional tokens, \<open>program_options\<close> the subsequence of
  the options before the first \<^verbatim>\<open>--\<close>, \<open>cmd_options\<close> the subsequence of the options
  after it, and each \<open>length\<close> field is the length of that subsequence.
\<close>

theorem cli_parse_preserves_order:
  assumes "list_all c_string ts" "ts \<noteq> []"
    "cli_parse (exec # ts) cli w = Inr (CliErrorOk, cli', w')"
  shows "contents (args cli') = filter positional ts
    \<and> contents (program_options cli') = filter option_token (takeWhile (\<lambda>t. t \<noteq> ''--'') ts)
    \<and> contents (cmd_options cli') = filter option_token (dropWhile (\<lambda>t. t \<noteq> ''--'') ts)
    \<and> unat (length_sa (args cli')) = length (filter positional ts)
    \<and> unat (length_sa (program_options cli'))
        = length (filter option_token (takeWhile (\<lambda>t. t \<noteq> ''--'') ts))
    \<and> unat (length_sa (cmd_options cli'))
        = length (filter option_token (dropWhile (\<lambda>t. t \<noteq> ''--'') ts))"
proof -
  note r = cli_parse_Ok_contents [OF assms]
  from r(1) have "wf_array (args cli')" "wf_array (program_options cli')"
    "wf_array (cmd_options cli')" by (simp_all add: wf_Cli_def)
  from this [THEN wf_contents_length] r(2,3,4) show ?thesis by simp
qed

theorem cli_parse_preserves_order_witness:
  "list_all c_string [''-v'', ''--'', ''-c'', ''file1'', ''-d'', ''file2'']
   \<and> cli_parse [''exec'', ''-v'', ''--'', ''-c'', ''file1'', ''-d'', ''file2''] zero_Cli
        example_world
       = Inr (CliErrorOk, example_Cli_order, example_world\<lparr>mallocs := [], live := 3\<rparr>)
   \<and> contents (args example_Cli_order) = [''file1'', ''file2'']
   \<and> contents (program_options example_Cli_order) = [''-v'']
   \<and> contents (cmd_options example_Cli_order) = [''-c'', ''-d'']"
proof -
  have h: "list_all c_string [''-v'', ''--'', ''-c'', ''file1'', ''-d'', ''file2'']"
    "[''-v'', ''--'', ''-c'', ''file1'', ''-d'', ''file2''] \<noteq> []"
    "cli_parse [''exec'', ''-v'', ''--'', ''-c'', ''file1'', ''-d'', ''file2''] zero_Cli
        example_world
       = Inr (CliErrorOk, example_Cli_order, example_world\<lparr>mallocs := [], live := 3\<rparr>)"
    by (simp_all add: eval_defs c_string_def example_Cli_order_def)
  from cli_parse_preserves_order [OF h] h show ?thesis
    by (simp add: positional_def option_token_def)
qed

subsection \<open>The user error\<close>

text \<open>
  C3. \<open>cli_parse\<close> returns \<open>CliErrorUser\<close> exactly when the tokens split as
  \<open>pre @ ''--'' # post\<close> where the pass over \<open>pre\<close> alone completes with \<open>CliErrorOk\<close> and
  \<open>pre\<close> holds a positional token (so the separator is met while \<open>args\<close> is not empty). The
  structure returned is then the one the pass over \<open>pre\<close> leaves, and the only other effect is
  the diagnostic naming the separator and the last positional token: no token of \<open>post\<close> is
  read or stored. In particular, where the three allocations succeed, a positional token
  followed by \<^verbatim>\<open>--\<close> gives the user error whatever follows.
\<close>

theorem cli_parse_user_error:
  assumes "list_all c_string ts"
  shows "((\<exists>cli' w'. cli_parse (exec # ts) cli w = Inr (CliErrorUser, cli', w')) \<longleftrightarrow>
          (\<exists>pre post cli1 w1. ts = pre @ ''--'' # post \<and> (\<exists>t\<in>set pre. positional t)
             \<and> cli_parse (exec # pre) cli w = Inr (CliErrorOk, cli1, w1)))
    \<and> (\<forall>pre post cli1 w1. ts = pre @ ''--'' # post \<and> (\<exists>t\<in>set pre. positional t)
             \<and> cli_parse (exec # pre) cli w = Inr (CliErrorOk, cli1, w1)
          \<longrightarrow> cli_parse (exec # ts) cli w =
               Inr (CliErrorUser, cli1,
                    cli_print_error ''CLI error''
                      (user_error_message ''--'' (last (filter positional pre))) w1))
    \<and> (\<forall>p others rest. positional p \<and> mallocs w = True # True # True # rest
          \<longrightarrow> (\<exists>cli' w'. cli_parse (exec # p # ''--'' # others) cli w
                    = Inr (CliErrorUser, cli', w')
                \<and> contents (args cli') = [p] \<and> contents (cmd_options cli') = []
                \<and> contents (program_options cli') = []))"
proof (intro conjI allI impI iffI)
  assume "\<exists>cli' w'. cli_parse (exec # ts) cli w = Inr (CliErrorUser, cli', w')"
  then obtain cli' w' where "cli_parse (exec # ts) cli w = Inr (CliErrorUser, cli', w')"
    by blast
  from cli_parse_user_dest [OF assms this]
  show "\<exists>pre post cli1 w1. ts = pre @ ''--'' # post \<and> (\<exists>t\<in>set pre. positional t)
             \<and> cli_parse (exec # pre) cli w = Inr (CliErrorOk, cli1, w1)"
    by blast
next
  assume "\<exists>pre post cli1 w1. ts = pre @ ''--'' # post \<and> (\<exists>t\<in>set pre. positional t)
             \<and> cli_parse (exec # pre) cli w = Inr (CliErrorOk, cli1, w1)"
  then obtain pre post cli1 w1 where p: "ts = pre @ ''--'' # post"
    "\<exists>t\<in>set pre. positional t" "cli_parse (exec # pre) cli w = Inr (CliErrorOk, cli1, w1)"
    by blast
  from assms p(1) have "list_all c_string pre" by simp
  from cli_parse_user_conv [OF this p(2,3), of post] p(1)
  show "\<exists>cli' w'. cli_parse (exec # ts) cli w = Inr (CliErrorUser, cli', w')"
    by simp
next
  fix pre post cli1 w1
  assume "ts = pre @ ''--'' # post \<and> (\<exists>t\<in>set pre. positional t)
             \<and> cli_parse (exec # pre) cli w = Inr (CliErrorOk, cli1, w1)"
  then have p: "ts = pre @ ''--'' # post"
    "\<exists>t\<in>set pre. positional t" "cli_parse (exec # pre) cli w = Inr (CliErrorOk, cli1, w1)"
    by simp_all
  from assms p(1) have "list_all c_string pre" by simp
  from cli_parse_user_conv [OF this p(2,3), of post] p(1)
  show "cli_parse (exec # ts) cli w =
               Inr (CliErrorUser, cli1,
                    cli_print_error ''CLI error''
                      (user_error_message ''--'' (last (filter positional pre))) w1)"
    by simp
next
  fix p others rest
  assume "positional p \<and> mallocs w = True # True # True # rest"
  then show "\<exists>cli' w'. cli_parse (exec # p # ''--'' # others) cli w
                    = Inr (CliErrorUser, cli', w')
                \<and> contents (args cli') = [p] \<and> contents (cmd_options cli') = []
                \<and> contents (program_options cli') = []"
    using example_pos_sep by blast
qed

theorem cli_parse_user_error_witness:
  "list_all c_string [''pos1'', ''--'', ''-b'']
   \<and> cli_parse [''exec'', ''pos1''] zero_Cli example_world
       = Inr (CliErrorOk, example_Cli_pos, example_world\<lparr>mallocs := [], live := 3\<rparr>)
   \<and> cli_parse [''exec'', ''pos1'', ''--'', ''-b''] zero_Cli example_world
       = Inr (CliErrorUser, example_Cli_pos,
              cli_print_error ''CLI error'' (user_error_message ''--'' ''pos1'')
                (example_world\<lparr>mallocs := [], live := 3\<rparr>))"
proof -
  have h: "list_all c_string [''pos1'', ''--'', ''-b'']"
    by (simp add: c_string_def)
  have ok: "cli_parse [''exec'', ''pos1''] zero_Cli example_world
       = Inr (CliErrorOk, example_Cli_pos, example_world\<lparr>mallocs := [], live := 3\<rparr>)"
    by (simp add: eval_defs example_Cli_pos_def)
  have p: "positional ''pos1''" by (simp add: positional_def)
  from cli_parse_user_error [OF h, of "''exec''" zero_Cli example_world]
  have "\<forall>pre post cli1 w1. [''pos1'', ''--'', ''-b''] = pre @ ''--'' # post
          \<and> (\<exists>t\<in>set pre. positional t)
          \<and> cli_parse (''exec'' # pre) zero_Cli example_world = Inr (CliErrorOk, cli1, w1)
          \<longrightarrow> cli_parse [''exec'', ''pos1'', ''--'', ''-b''] zero_Cli example_world =
               Inr (CliErrorUser, cli1,
                    cli_print_error ''CLI error''
                      (user_error_message ''--'' (last (filter positional pre))) w1)"
    by blast
  from this [rule_format, of "[''pos1'']" "[''-b'']" example_Cli_pos
      "example_world\<lparr>mallocs := [], live := 3\<rparr>"] ok p h
  show ?thesis by simp
qed

subsection \<open>The vector with the invocation path only\<close>

text \<open>
  C4. On an argument vector that holds the invocation path only, \<open>cli_parse\<close> returns
  \<open>CliErrorOk\<close>, \<open>execfile\<close> is that path, the three arrays have length 0, capacity 0 and a
  null \<open>data\<close>, and the allocator is left as it was: nothing is allocated.
\<close>

theorem cli_parse_exec_only:
  "cli_parse [exec] cli w =
     Inr (CliErrorOk,
          \<lparr>execfile = Some exec, command = None,
           args = \<lparr>length_sa = 0, capacity = 0, data = None\<rparr>,
           cmd_options = \<lparr>length_sa = 0, capacity = 0, data = None\<rparr>,
           program_options = \<lparr>length_sa = 0, capacity = 0, data = None\<rparr>\<rparr>,
          w)"
  by (simp add: cli_parse_def cli_pop_argv_def zero_Cli_def zero_array_def)

subsection \<open>The scope\<close>

text \<open>
  C5. The scope moves forward only. If the pass over a prefix \<open>pre\<close> of the input has
  stored an option in \<open>cmd_options\<close>, then \<open>pre\<close> holds the separator and the run over the whole
  input \<open>pre @ post\<close> returns \<open>program_options\<close> as the prefix left it. In the loop, the scope
  after a prefix is the command scope when it was so before or the prefix holds the
  separator, and a pass that starts in the command scope never changes \<open>program_options\<close>.
\<close>

theorem scope_switches_forward_only:
  assumes "list_all c_string pre"
  shows "(cli_parse (exec # pre) cli w = Inr (CliErrorOk, cli1, w1)
        \<and> cli_parse (exec # pre @ post) cli w = Inr (r, cli2, w2)
        \<and> 0 < length_sa (cmd_options cli1)
      \<longrightarrow> program_options cli2 = program_options cli1 \<and> ''--'' \<in> set pre)
    \<and> (parse_loop b pre c v = Inr (CliErrorOk, c1, v1)
      \<longrightarrow> parse_loop b (pre @ post) c v = parse_loop (b \<or> ''--'' \<in> set pre) post c1 v1)
    \<and> (parse_loop True post c1 v1 = Inr (r, c2, v2)
      \<longrightarrow> program_options c2 = program_options c1)"
proof -
  have prefix: "parse_loop b pre c v = Inr (CliErrorOk, c1, v1)
      \<longrightarrow> parse_loop b (pre @ post) c v = parse_loop (b \<or> ''--'' \<in> set pre) post c1 v1"
    using parse_loop_prefix [OF assms] by blast
  have frame: "parse_loop True post c1 v1 = Inr (r, c2, v2)
      \<longrightarrow> program_options c2 = program_options c1"
    using parse_loop_cmd_scope by blast
  have run: "cli_parse (exec # pre) cli w = Inr (CliErrorOk, cli1, w1)
        \<and> cli_parse (exec # pre @ post) cli w = Inr (r, cli2, w2)
        \<and> 0 < length_sa (cmd_options cli1)
      \<longrightarrow> program_options cli2 = program_options cli1 \<and> ''--'' \<in> set pre"
  proof (rule impI)
    assume h: "cli_parse (exec # pre) cli w = Inr (CliErrorOk, cli1, w1)
        \<and> cli_parse (exec # pre @ post) cli w = Inr (r, cli2, w2)
        \<and> 0 < length_sa (cmd_options cli1)"
    then have ok: "cli_parse (exec # pre) cli w = Inr (CliErrorOk, cli1, w1)"
      and run: "cli_parse (exec # pre @ post) cli w = Inr (r, cli2, w2)"
      and pos: "0 < length_sa (cmd_options cli1)" by simp_all
    have ne: "pre \<noteq> []"
    proof
      assume "pre = []"
      with ok pos show False
        by (auto simp: cli_parse_def cli_pop_argv_def zero_Cli_def zero_array_def)
    qed
    from cli_parse_loop [OF ne ok] obtain rest
      where m: "mallocs w = True # True # True # rest"
        and l: "parse_loop False pre (init_Cli exec cli)
            (w\<lparr>mallocs := rest, live := live w + 3\<rparr>) = Inr (CliErrorOk, cli1, w1)"
      by auto
    note r = cli_parse_Ok_contents [OF assms ne ok]
    from r(1) have "wf_array (cmd_options cli1)" by (simp add: wf_Cli_def)
    from wf_contents_length [OF this] pos have cne: "contents (cmd_options cli1) \<noteq> []"
      by (auto simp: word_less_nat_alt)
    have s: "''--'' \<in> set pre"
    proof (rule ccontr)
      assume "''--'' \<notin> set pre"
      then have "dropWhile (\<lambda>t. t \<noteq> ''--'') pre = []" by auto
      with r(4) cne show False by simp
    qed
    have "pre @ post \<noteq> []" using ne by simp
    from cli_parse_allocated [OF this m, of exec cli] run
    have "parse_loop False (pre @ post) (init_Cli exec cli)
        (w\<lparr>mallocs := rest, live := live w + 3\<rparr>) = Inr (r, cli2, w2)" by simp
    then have "parse_loop True post cli1 w1 = Inr (r, cli2, w2)"
      unfolding parse_loop_prefix [OF assms l] using s by simp
    from parse_loop_cmd_scope [OF this] s
    show "program_options cli2 = program_options cli1 \<and> ''--'' \<in> set pre" by simp
  qed
  from run prefix frame show ?thesis by (intro conjI)
qed

theorem scope_switches_forward_only_witness:
  "list_all c_string [''-a'', ''--'', ''-b'']
   \<and> cli_parse [''exec'', ''-a'', ''--'', ''-b''] zero_Cli example_world
       = Inr (CliErrorOk, example_Cli, example_world\<lparr>mallocs := [], live := 3\<rparr>)
   \<and> cli_parse [''exec'', ''-a'', ''--'', ''-b'', ''-c'', ''x''] zero_Cli example_world
       = Inr (CliErrorOk, example_Cli_scope, example_world\<lparr>mallocs := [], live := 3\<rparr>)
   \<and> 0 < length_sa (cmd_options example_Cli)
   \<and> program_options example_Cli_scope = program_options example_Cli"
proof -
  have h: "list_all c_string [''-a'', ''--'', ''-b'']"
    by (simp add: c_string_def)
  have g: "cli_parse (''exec'' # [''-a'', ''--'', ''-b'']) zero_Cli example_world
       = Inr (CliErrorOk, example_Cli, example_world\<lparr>mallocs := [], live := 3\<rparr>)
   \<and> cli_parse (''exec'' # [''-a'', ''--'', ''-b''] @ [''-c'', ''x'']) zero_Cli example_world
       = Inr (CliErrorOk, example_Cli_scope, example_world\<lparr>mallocs := [], live := 3\<rparr>)
   \<and> 0 < length_sa (cmd_options example_Cli)"
    by (simp add: eval_defs example_Cli_def example_Cli_scope_def)
  from scope_switches_forward_only [OF h, of "''exec''" zero_Cli example_world example_Cli
      "example_world\<lparr>mallocs := [], live := 3\<rparr>" "[''-c'', ''x'']" CliErrorOk
      example_Cli_scope "example_world\<lparr>mallocs := [], live := 3\<rparr>"] g
  have "program_options example_Cli_scope = program_options example_Cli" by blast
  with h g show ?thesis by simp
qed

subsection \<open>Capacity\<close>

text \<open>
  C6. An array keeps \<open>length \<le> capacity\<close>: \<open>cli_da_init\<close> sets length 0 and capacity
  \<^verbatim>\<open>CLI_DEFAULT_ARR_CAP\<close>, and every \<open>cli_da_append\<close> that returns leaves the length
  within the capacity. On a freshly allocated array, appending up to
  \<^verbatim>\<open>CLI_DEFAULT_ARR_CAP\<close> items succeeds and stores them all, and appending one more to
  a full array ends in the capacity assertion. When no class of tokens of the input has more
  than \<^verbatim>\<open>CLI_DEFAULT_ARR_CAP\<close> members, \<open>cli_parse\<close> returns: the assertion is not
  reached. Whenever \<open>cli_parse\<close> returns without a fatal error, the three arrays satisfy
  the invariant; after a fatal error they do when they did before the call (the arrays not
  yet initialized are left as the caller passed them).
\<close>

theorem growable_array_capacity:
  "(cli_da_append a x = Inr a' \<longrightarrow> length_sa a' \<le> capacity a')
   \<and> (cli_da_init a w = (a0, w0)
      \<longrightarrow> length_sa a0 = 0 \<and> unat (capacity a0) = CLI_DEFAULT_ARR_CAP
        \<and> length_sa a0 \<le> capacity a0)
   \<and> (cli_da_init a w = (a0, w0) \<and> data a0 \<noteq> None \<and> length xs \<le> CLI_DEFAULT_ARR_CAP
      \<longrightarrow> (\<exists>a1. append_all a0 xs = Inr a1 \<and> contents a1 = xs
            \<and> unat (length_sa a1) = length xs \<and> length_sa a1 \<le> capacity a1))
   \<and> (cli_da_init a w = (a0, w0) \<and> data a0 \<noteq> None \<and> length xs = CLI_DEFAULT_ARR_CAP
      \<longrightarrow> append_all a0 (xs @ [y]) = Inl AssertCapacity)
   \<and> (list_all c_string ts \<and> within_capacity ts
      \<longrightarrow> (\<exists>res. cli_parse (exec # ts) cli w = Inr res)
        \<and> cli_parse (exec # ts) cli w \<noteq> Inl AssertCapacity)
   \<and> (cli_parse (exec # ts) cli w = Inr (r, cli', w') \<and> r \<noteq> CliErrorFatal
      \<longrightarrow> inv_Cli cli')
   \<and> (cli_parse (exec # ts) cli w = Inr (r, cli', w') \<and> inv_Cli cli \<longrightarrow> inv_Cli cli')"
proof -
  have 1: "cli_da_append a x = Inr a' \<longrightarrow> length_sa a' \<le> capacity a'"
    using append_le by blast
  have 2: "cli_da_init a w = (a0, w0)
      \<longrightarrow> length_sa a0 = 0 \<and> unat (capacity a0) = CLI_DEFAULT_ARR_CAP
        \<and> length_sa a0 \<le> capacity a0"
    using init_allocated [of a w a0 w0] by (simp add: CLI_DEFAULT_ARR_CAP_def)
  have 3: "cli_da_init a w = (a0, w0) \<and> data a0 \<noteq> None \<and> length xs \<le> CLI_DEFAULT_ARR_CAP
      \<longrightarrow> (\<exists>a1. append_all a0 xs = Inr a1 \<and> contents a1 = xs
            \<and> unat (length_sa a1) = length xs \<and> length_sa a1 \<le> capacity a1)"
    using init_allocated [of a w a0 w0] fresh_five [of xs]
    by (auto simp: CLI_DEFAULT_ARR_CAP_def)
  have 4: "cli_da_init a w = (a0, w0) \<and> data a0 \<noteq> None \<and> length xs = CLI_DEFAULT_ARR_CAP
      \<longrightarrow> append_all a0 (xs @ [y]) = Inl AssertCapacity"
    using init_allocated [of a w a0 w0] fresh_sixth [of xs y]
    by (auto simp: CLI_DEFAULT_ARR_CAP_def)
  have 5: "list_all c_string ts \<and> within_capacity ts
      \<longrightarrow> (\<exists>res. cli_parse (exec # ts) cli w = Inr res)
        \<and> cli_parse (exec # ts) cli w \<noteq> Inl AssertCapacity"
    using cli_parse_within_capacity [of ts exec cli w] by auto
  have 6: "cli_parse (exec # ts) cli w = Inr (r, cli', w') \<and> r \<noteq> CliErrorFatal
      \<longrightarrow> inv_Cli cli'"
    using cli_parse_inv by blast
  have 7: "cli_parse (exec # ts) cli w = Inr (r, cli', w') \<and> inv_Cli cli \<longrightarrow> inv_Cli cli'"
    using cli_parse_inv_kept by blast
  from 1 2 3 4 5 6 7 show ?thesis by (intro conjI)
qed

theorem growable_array_capacity_witness:
  "cli_da_append fresh_array ''t''
     = Inr \<lparr>length_sa = 1, capacity = 5, data = Some [Some ''t'', None, None, None, None]\<rparr>
   \<and> cli_da_init zero_array example_world
     = (fresh_array, example_world\<lparr>mallocs := [True, True], live := 1\<rparr>)
   \<and> data fresh_array \<noteq> None
   \<and> length [''a'', ''b'', ''c'', ''d'', ''e''] = CLI_DEFAULT_ARR_CAP
   \<and> (\<exists>a1. append_all fresh_array [''a'', ''b'', ''c'', ''d'', ''e''] = Inr a1
         \<and> contents a1 = [''a'', ''b'', ''c'', ''d'', ''e''] \<and> length_sa a1 \<le> capacity a1)
   \<and> append_all fresh_array ([''a'', ''b'', ''c'', ''d'', ''e''] @ [''f'']) = Inl AssertCapacity
   \<and> list_all c_string [''a'', ''b'', ''c'', ''d'', ''e'']
   \<and> within_capacity [''a'', ''b'', ''c'', ''d'', ''e'']
   \<and> cli_parse [''exec'', ''a'', ''b'', ''c'', ''d'', ''e''] zero_Cli example_world
     = Inr (CliErrorOk, example_Cli_full, example_world\<lparr>mallocs := [], live := 3\<rparr>)
   \<and> inv_Cli example_Cli_full
   \<and> cli_parse [''exec'', ''a'', ''b'', ''c'', ''d'', ''e'', ''f''] zero_Cli example_world
     = Inl AssertCapacity"
proof -
  have a: "cli_da_append fresh_array ''t''
     = Inr \<lparr>length_sa = 1, capacity = 5, data = Some [Some ''t'', None, None, None, None]\<rparr>"
    by (simp add: fresh_array_def cli_da_append_def replicate_5)
  have i: "cli_da_init zero_array example_world
     = (fresh_array, example_world\<lparr>mallocs := [True, True], live := 1\<rparr>)"
    by (simp add: cli_da_init_def CLI_MALLOC_def CLI_DEFAULT_ARR_CAP_def fresh_array_def
        zero_array_def example_world_def)
  have d: "data fresh_array \<noteq> None" by (simp add: fresh_array_def)
  have n: "length [''a'', ''b'', ''c'', ''d'', ''e''] = CLI_DEFAULT_ARR_CAP"
    by (simp add: CLI_DEFAULT_ARR_CAP_def)
  have c: "list_all c_string [''a'', ''b'', ''c'', ''d'', ''e'']"
    "within_capacity [''a'', ''b'', ''c'', ''d'', ''e'']"
    by (simp_all add: c_string_def within_capacity_def positional_def option_token_def
        CLI_DEFAULT_ARR_CAP_def)
  have p: "cli_parse (''exec'' # [''a'', ''b'', ''c'', ''d'', ''e'']) zero_Cli example_world
     = Inr (CliErrorOk, example_Cli_full, example_world\<lparr>mallocs := [], live := 3\<rparr>)"
    by (simp add: eval_defs example_Cli_full_def)
  have q: "cli_parse [''exec'', ''a'', ''b'', ''c'', ''d'', ''e'', ''f''] zero_Cli example_world
     = Inl AssertCapacity"
    by (simp add: eval_defs)
  note t = growable_array_capacity [of fresh_array "''t''"
      "\<lparr>length_sa = 1, capacity = 5, data = Some [Some ''t'', None, None, None, None]\<rparr>"
      example_world fresh_array "example_world\<lparr>mallocs := [True, True], live := 1\<rparr>"
      "[''a'', ''b'', ''c'', ''d'', ''e'']" "''f''" "[''a'', ''b'', ''c'', ''d'', ''e'']"
      "''exec''" zero_Cli CliErrorOk example_Cli_full
      "example_world\<lparr>mallocs := [], live := 3\<rparr>"]
  have i': "cli_da_init fresh_array example_world
     = (fresh_array, example_world\<lparr>mallocs := [True, True], live := 1\<rparr>)"
    by (simp add: cli_da_init_def CLI_MALLOC_def CLI_DEFAULT_ARR_CAP_def fresh_array_def
        example_world_def)
  from t i' d n have 3: "\<exists>a1. append_all fresh_array [''a'', ''b'', ''c'', ''d'', ''e''] = Inr a1
         \<and> contents a1 = [''a'', ''b'', ''c'', ''d'', ''e''] \<and> length_sa a1 \<le> capacity a1"
    by auto
  from t i' d n have 4:
    "append_all fresh_array ([''a'', ''b'', ''c'', ''d'', ''e''] @ [''f'']) = Inl AssertCapacity"
    by blast
  from t p have 6: "inv_Cli example_Cli_full" by simp
  from a i d n 3 4 c p 6 q show ?thesis by simp
qed

subsection \<open>Allocation failure\<close>

text \<open>
  C7. With at least one token after the invocation path, let \<open>k\<close> be the number of
  allocations that succeed before the first failure. If \<open>k < 3\<close>, \<open>cli_parse\<close> returns
  \<open>CliErrorFatal\<close>: it has printed the memory error of the array number \<open>k\<close> (in the order
  \<open>args\<close>, \<open>cmd_options\<close>, \<open>program_options\<close>), the \<open>k\<close> blocks allocated before are still
  live and their arrays still point to them, the failing array has a null \<open>data\<close>, the later
  arrays are untouched, and the result is the same for every non-empty list of tokens: none
  is processed.
\<close>

theorem cli_parse_allocation_failure:
  assumes "ts \<noteq> []" "k = length (takeWhile id (mallocs w))" "k < 3"
  shows "\<exists>cli' w'. cli_parse (exec # ts) cli w = Inr (CliErrorFatal, cli', w')
     \<and> w' = cli_print_error ''Memory error'' (memory_error_messages ! k)
              (w\<lparr>mallocs := drop (Suc k) (mallocs w), live := live w + k\<rparr>)
     \<and> live w' = live w + k
     \<and> execfile cli' = Some exec \<and> command cli' = command cli
     \<and> args cli' = (if 0 < k then fresh_array else null_array)
     \<and> cmd_options cli'
         = (if 1 < k then fresh_array else if k = 1 then null_array else cmd_options cli)
     \<and> program_options cli' = (if k = 2 then null_array else program_options cli)
     \<and> (\<forall>ts'. ts' \<noteq> [] \<longrightarrow> cli_parse (exec # ts') cli w = cli_parse (exec # ts) cli w)"
proof -
  note r = cli_parse_fatal_result [OF assms, of exec cli]
  have i: "\<forall>ts'. ts' \<noteq> [] \<longrightarrow> cli_parse (exec # ts') cli w = cli_parse (exec # ts) cli w"
  proof (intro allI impI)
    fix ts' :: "cstring list"
    assume "ts' \<noteq> []"
    from cli_parse_fatal_result [OF this assms(2,3), of exec cli] r
    show "cli_parse (exec # ts') cli w = cli_parse (exec # ts) cli w" by (rule trans_sym)
  qed
  have l: "live (cli_print_error ''Memory error'' (memory_error_messages ! k)
              (w\<lparr>mallocs := drop (Suc k) (mallocs w), live := live w + k\<rparr>)) = live w + k"
    by (simp add: cli_print_error_def)
  show ?thesis
    apply (rule exI, rule exI)
    apply (intro conjI)
             apply (rule r)
            apply (rule refl)
           apply (rule l)
          apply simp
         apply simp
        apply simp
       apply simp
      apply simp
    apply (rule i)
    done
qed


theorem cli_parse_allocation_failure_witness:
  "[''a'', ''b''] \<noteq> []
   \<and> (1::nat) = length (takeWhile id (mallocs (example_world\<lparr>mallocs := [True, False]\<rparr>)))
   \<and> (\<exists>cli' w'. cli_parse [''exec'', ''a'', ''b''] zero_Cli
                    (example_world\<lparr>mallocs := [True, False]\<rparr>)
                  = Inr (CliErrorFatal, cli', w')
        \<and> live w' = 1 \<and> mallocs w' = [] \<and> data (args cli') \<noteq> None
        \<and> data (cmd_options cli') = None \<and> program_options cli' = zero_array
        \<and> stderr w' = CLI_ERROR_SYM
            @ '' Memory error: Unable to allocate memory for command options.'' @ [CHR 0x0A])"
proof -
  have h: "[''a'', ''b''] \<noteq> []"
    "(1::nat) = length (takeWhile id (mallocs (example_world\<lparr>mallocs := [True, False]\<rparr>)))"
    "(1::nat) < 3"
    by simp_all
  from cli_parse_allocation_failure [OF h, of "''exec''" zero_Cli] obtain cli' w'
    where r: "cli_parse [''exec'', ''a'', ''b''] zero_Cli
        (example_world\<lparr>mallocs := [True, False]\<rparr>) = Inr (CliErrorFatal, cli', w')"
      and w: "w' = cli_print_error ''Memory error'' (memory_error_messages ! 1)
          (example_world\<lparr>mallocs := [True, False]\<rparr>
             \<lparr>mallocs := drop (Suc 1) (mallocs (example_world\<lparr>mallocs := [True, False]\<rparr>)),
              live := live (example_world\<lparr>mallocs := [True, False]\<rparr>) + 1\<rparr>)"
      and a: "args cli' = (if 0 < (1::nat) then fresh_array else null_array)"
      and c: "cmd_options cli'
         = (if 1 < (1::nat) then fresh_array else if (1::nat) = 1 then null_array
            else cmd_options zero_Cli)"
      and p: "program_options cli'
         = (if (1::nat) = 2 then null_array else program_options zero_Cli)"
    by blast
  have 1: "live w' = 1" "mallocs w' = []"
    by (simp_all add: w cli_print_error_def example_world_def)
  have 2: "stderr w' = CLI_ERROR_SYM
            @ '' Memory error: Unable to allocate memory for command options.'' @ [CHR 0x0A]"
    by (simp add: w cli_print_error_def example_world_def initial_styles_def
        memory_error_messages_def)
  have 3: "data (args cli') \<noteq> None" "data (cmd_options cli') = None"
    "program_options cli' = zero_array"
    by (simp_all add: a c p fresh_array_def null_array_def zero_Cli_def)
  from r 1 2 3 h(1,2) show ?thesis by blast
qed

subsection \<open>The styles\<close>

text \<open>
  C8. Toggling twice is not the identity on every state of the five globals: from a state
  where a caller has set all five to a string of its own, the first toggle empties them and
  the second stores the escape sequences, not the caller's strings.
\<close>

theorem toggle_twice_counterexample:
  "cli_toggle_colors False (cli_toggle_colors False custom_styles) \<noteq> custom_styles"
  by (simp add: cli_toggle_colors_def custom_styles_def)

text \<open>
  C8, amended. In every state reached from the initializers by calls of
  \<open>cli_toggle_colors\<close>, two more calls give the same state back, with or without
  \<^verbatim>\<open>CLI_NO_STYLES\<close>.
\<close>

theorem toggle_twice_reachable:
  "cli_toggle_colors no_styles (cli_toggle_colors no_styles
     ((cli_toggle_colors no_styles ^^ n) initial_styles))
   = (cli_toggle_colors no_styles ^^ n) initial_styles"
proof (cases no_styles)
  case True
  then show ?thesis by (simp add: toggle_no_styles cli_toggle_colors_def)
next
  case False
  then show ?thesis by (simp add: toggle_reachable toggle_initial toggle_ansi)
qed

text \<open>
  C9. The five globals start empty; in every state reached from there by calls of
  \<open>cli_toggle_colors\<close> they are all empty or all non-empty; and, where
  \<^verbatim>\<open>CLI_NO_STYLES\<close> is not defined, a call makes all five non-empty exactly when all
  five were empty, and all five empty exactly when all five were non-empty.
\<close>

theorem styles_all_or_nothing:
  "all_inactive initial_styles
   \<and> (all_inactive ((cli_toggle_colors no_styles ^^ n) initial_styles)
      \<or> all_active ((cli_toggle_colors no_styles ^^ n) initial_styles))
   \<and> all_active (cli_toggle_colors False ((cli_toggle_colors False ^^ n) initial_styles))
       = all_inactive ((cli_toggle_colors False ^^ n) initial_styles)
   \<and> all_inactive (cli_toggle_colors False ((cli_toggle_colors False ^^ n) initial_styles))
       = all_active ((cli_toggle_colors False ^^ n) initial_styles)"
proof -
  have i: "all_inactive initial_styles" "\<not> all_active initial_styles"
    by (simp_all add: all_inactive_def all_active_def initial_styles_def)
  have a: "all_active ansi_styles" "\<not> all_inactive ansi_styles"
    by (simp_all add: all_inactive_def all_active_def ansi_styles_def)
  show ?thesis
  proof (cases no_styles)
    case True
    then show ?thesis using i a by (simp add: toggle_no_styles toggle_reachable toggle_initial toggle_ansi)
  next
    case False
    then show ?thesis using i a by (simp add: toggle_reachable toggle_initial toggle_ansi)
  qed
qed

subsection \<open>The field \<^verbatim>\<open>command\<close>\<close>

text \<open>
  C10. With at least one token after the invocation path, whatever \<open>cli_parse\<close> returns, the
  field \<open>command\<close> keeps the value it had before the call; with the invocation path alone the
  whole structure is zeroed before \<open>execfile\<close> is set, so \<open>command\<close> is null.
\<close>

theorem command_field_untouched:
  "(ts \<noteq> [] \<and> cli_parse (exec # ts) cli w = Inr (r, cli', w') \<longrightarrow> command cli' = command cli)
   \<and> (cli_parse [exec] cli w = Inr (r, cli', w')
      \<longrightarrow> command cli' = None \<and> cli' = zero_Cli\<lparr>execfile := Some exec\<rparr>)"
  by (auto simp: cli_parse_command) (auto simp: cli_parse_def cli_pop_argv_def zero_Cli_def)

theorem command_field_untouched_witness:
  "[''-a'', ''--'', ''-b''] \<noteq> []
   \<and> cli_parse [''exec'', ''-a'', ''--'', ''-b''] (zero_Cli\<lparr>command := Some ''build''\<rparr>)
        example_world
       = Inr (CliErrorOk, example_Cli\<lparr>command := Some ''build''\<rparr>,
              example_world\<lparr>mallocs := [], live := 3\<rparr>)
   \<and> command (example_Cli\<lparr>command := Some ''build''\<rparr>) = Some ''build''
   \<and> cli_parse [''exec''] (zero_Cli\<lparr>command := Some ''build''\<rparr>) example_world
       = Inr (CliErrorOk, zero_Cli\<lparr>execfile := Some ''exec''\<rparr>, example_world)
   \<and> command (zero_Cli\<lparr>execfile := Some ''exec''\<rparr>) = None"
proof -
  have h: "[''-a'', ''--'', ''-b''] \<noteq> []
   \<and> cli_parse [''exec'', ''-a'', ''--'', ''-b''] (zero_Cli\<lparr>command := Some ''build''\<rparr>)
        example_world
       = Inr (CliErrorOk, example_Cli\<lparr>command := Some ''build''\<rparr>,
              example_world\<lparr>mallocs := [], live := 3\<rparr>)"
    by (simp add: eval_defs example_Cli_def)
  have g: "cli_parse [''exec''] (zero_Cli\<lparr>command := Some ''build''\<rparr>) example_world
       = Inr (CliErrorOk, zero_Cli\<lparr>execfile := Some ''exec''\<rparr>, example_world)"
    by (simp add: eval_defs)
  from command_field_untouched [of "[''-a'', ''--'', ''-b'']" "''exec''"
      "zero_Cli\<lparr>command := Some ''build''\<rparr>" example_world CliErrorOk
      "example_Cli\<lparr>command := Some ''build''\<rparr>" "example_world\<lparr>mallocs := [], live := 3\<rparr>"]
    command_field_untouched [of "[]" "''exec''"
      "zero_Cli\<lparr>command := Some ''build''\<rparr>" example_world CliErrorOk
      "zero_Cli\<lparr>execfile := Some ''exec''\<rparr>" example_world]
    h g
  show ?thesis by simp
qed

end
